theory Spec2Isabelle
  imports Main "HOL-Library.Sublist" "HOL-Library.Multiset"
begin

section \<open>Texts and the regular expressions of the sanitizer\<close>

text \<open>
  A JavaScript string is a sequence of UTF-16 code units: a \<open>js_string\<close> is the list of
  its code units, as integers, and \<open>str\<close> writes down one made of ASCII characters. The regular expressions
  of \<open>comments.js\<close> carry no \<open>u\<close> flag, so they work on single code units.
\<close>

type_synonym js_string = "int list"

definition cu :: "char \<Rightarrow> int" where
  "cu c = of_char c"

definition str :: "string \<Rightarrow> js_string" where
  "str s = map cu s"

text \<open>
  \<open>is_space\<close> is the class \<open>\s\<close>, which is also the set of characters removed by
  \<open>String.prototype.trim\<close> (WhiteSpace and LineTerminator): TAB, LF, VT, FF, CR, SPACE,
  NO-BREAK SPACE, the other space separators of Unicode, LINE SEPARATOR, PARAGRAPH
  SEPARATOR and the byte order mark.
\<close>

definition is_space :: "int \<Rightarrow> bool" where
  "is_space c \<longleftrightarrow>
     c \<in> set [0x09, 0x0A, 0x0B, 0x0C, 0x0D, 0x20, 0xA0, 0x1680, 0x2028, 0x2029, 0x202F,
                0x205F, 0x3000, 0xFEFF]
     \<or> (0x2000 \<le> c \<and> c \<le> 0x200A)"

text \<open>
  Canonicalisation under the \<open>i\<close> flag (without \<open>u\<close>): a code unit is compared after
  \<open>toUpperCase\<close>, except that a non-ASCII code unit is never mapped onto an ASCII one.
  Every literal of the patterns below is ASCII, so only the folding of \<open>a\<close> .. \<open>z\<close> can
  make a comparison with one of them succeed; for the other code units it makes no
  difference here what they are mapped to, and they are left as they are.
\<close>

definition canon :: "int \<Rightarrow> int" where
  "canon c = (if 97 \<le> c \<and> c \<le> 122 then c - 32 else c)"

datatype atom =
    Chr int       \<comment> \<open>a literal character\<close>
  | AnyChar       \<comment> \<open>the class \<open>[\s\S]\<close>\<close>
  | Space         \<comment> \<open>the class \<open>\s\<close>\<close>
  | NotChr int    \<comment> \<open>a negated class of one character, \<open>[^>]\<close>\<close>

datatype item =
    Once atom        \<comment> \<open>\<open>a\<close>\<close>
  | Greedy atom      \<comment> \<open>\<open>a*\<close>\<close>
  | Reluctant atom   \<comment> \<open>\<open>a*?\<close>\<close>

type_synonym regex = "item list"

fun atom_ok :: "bool \<Rightarrow> atom \<Rightarrow> int \<Rightarrow> bool" where
  "atom_ok ic (Chr p) c = (if ic then canon c = canon p else c = p)"
| "atom_ok ic AnyChar c = True"
| "atom_ok ic Space c = is_space c"
| "atom_ok ic (NotChr p) c = (if ic then canon c \<noteq> canon p else c \<noteq> p)"

text \<open>
  \<open>rmatch ic r s\<close> runs the backtracking matcher of ECMAScript on the sequence \<open>r\<close>, anchored
  at the start of \<open>s\<close>; \<open>ic\<close> is the \<open>i\<close> flag. The result is the length of the match the
  engine finds first, or \<open>None\<close>. A greedy star first tries one more character and falls
  back to the rest of the pattern; a reluctant star first tries the rest of the pattern.
\<close>

fun rmatch :: "bool \<Rightarrow> regex \<Rightarrow> js_string \<Rightarrow> nat option" where
  "rmatch ic [] s = Some 0"
| "rmatch ic (Once a # r) [] = None"
| "rmatch ic (Once a # r) (c # cs) =
     (if atom_ok ic a c then map_option Suc (rmatch ic r cs) else None)"
| "rmatch ic (Greedy a # r) [] = rmatch ic r []"
| "rmatch ic (Greedy a # r) (c # cs) =
     (if atom_ok ic a c
      then (case rmatch ic (Greedy a # r) cs of
              Some n \<Rightarrow> Some (Suc n)
            | None \<Rightarrow> rmatch ic r (c # cs))
      else rmatch ic r (c # cs))"
| "rmatch ic (Reluctant a # r) [] = rmatch ic r []"
| "rmatch ic (Reluctant a # r) (c # cs) =
     (case rmatch ic r (c # cs) of
        Some n \<Rightarrow> Some n
      | None \<Rightarrow>
          if atom_ok ic a c then map_option Suc (rmatch ic (Reluctant a # r) cs) else None)"

definition lit :: "js_string \<Rightarrow> regex" where
  "lit s = map (\<lambda>c. Once (Chr c)) s"

text \<open>
  \<open>String.prototype.replace\<close> with a global regular expression and a constant replacement:
  the text is scanned from the left; at the first position where the pattern matches, the
  match is replaced and the scan goes on behind it. After an empty match the scan moves on
  by one character, which is copied.
\<close>

fun replace_g :: "bool \<Rightarrow> regex \<Rightarrow> js_string \<Rightarrow> js_string \<Rightarrow> js_string" where
  "replace_g ic r rep [] = (case rmatch ic r [] of None \<Rightarrow> [] | Some n \<Rightarrow> rep)"
| "replace_g ic r rep (c # cs) =
     (case rmatch ic r (c # cs) of
        None \<Rightarrow> c # replace_g ic r rep cs
      | Some 0 \<Rightarrow> rep @ c # replace_g ic r rep cs
      | Some (Suc n) \<Rightarrow> rep @ replace_g ic r rep (drop n cs))"

text \<open>\<open>RegExp.prototype.test\<close>: the pattern matches somewhere in the text.\<close>

fun has_match :: "bool \<Rightarrow> regex \<Rightarrow> js_string \<Rightarrow> bool" where
  "has_match ic r [] = (rmatch ic r [] \<noteq> None)"
| "has_match ic r (c # cs) = (rmatch ic r (c # cs) \<noteq> None \<or> has_match ic r cs)"

definition trim :: "js_string \<Rightarrow> js_string" where
  "trim s = rev (dropWhile is_space (rev (dropWhile is_space s)))"

section \<open>Body cleanup (\<open>cleanBody\<close>)\<close>

definition nl :: int where
  "nl = 0x0A"

text \<open>\<open>/<!--[\s\S]*?-->/g\<close>\<close>

definition rx_html_comment :: regex where
  "rx_html_comment = lit (str ''<!--'') @ [Reluctant AnyChar] @ lit (str ''-->'')"

text \<open>\<open>/<details>\s*<summary>\s*Additional Locations[\s\S]*?<\/details>/gi\<close>\<close>

definition rx_details :: regex where
  "rx_details =
     lit (str ''<details>'') @ [Greedy Space] @ lit (str ''<summary>'') @ [Greedy Space]
       @ lit (str ''Additional Locations'') @ [Reluctant AnyChar] @ lit (str ''</details>'')"

text \<open>\<open>/<p>\s*<a [^>]*cursor\.com[\s\S]*?<\/p>/gi\<close>\<close>

definition rx_cursor :: regex where
  "rx_cursor =
     lit (str ''<p>'') @ [Greedy Space] @ lit (str ''<a '') @ [Greedy (NotChr (cu CHR ''>''))]
       @ lit (str ''cursor.com'') @ [Reluctant AnyChar] @ lit (str ''</p>'')"

text \<open>\<open>/\n{3,}/g\<close>: three newlines, then as many as there are.\<close>

definition rx_newlines :: regex where
  "rx_newlines = [Once (Chr nl), Once (Chr nl), Once (Chr nl), Greedy (Chr nl)]"

text \<open>
  A body is \<open>None\<close> for \<open>null\<close> or \<open>undefined\<close>. A falsy body (those, and the empty
  string) is returned as it is.
\<close>

definition cleanBody :: "js_string option \<Rightarrow> js_string option" where
  "cleanBody body =
     (case body of
        None \<Rightarrow> None
      | Some b \<Rightarrow>
          if b = [] then Some b
          else
            let cleaned = b;
                cleaned = replace_g False rx_html_comment [] cleaned;
                cleaned = replace_g True rx_details [] cleaned;
                cleaned = replace_g True rx_cursor [] cleaned;
                cleaned = replace_g False rx_newlines [nl, nl] cleaned
            in Some (trim cleaned))"

text \<open>The fourth rewrite of \<open>cleanBody\<close> on its own.\<close>

definition collapse :: "js_string \<Rightarrow> js_string" where
  "collapse s = replace_g False rx_newlines [nl, nl] s"

section \<open>Comment classification\<close>

text \<open>
  A login is \<open>comment.user?.login\<close>: \<open>None\<close> when the user or the login is missing.
  A meta filter is a predicate on the login and the (truthy) body.
\<close>

type_synonym meta_filter = "js_string option \<Rightarrow> js_string \<Rightarrow> bool"

definition DEFAULT_META_FILTERS :: "meta_filter list" where
  "DEFAULT_META_FILTERS =
     [\<lambda>user body. user = Some (str ''vercel[bot]'') \<and> prefix (str ''[vc]:'') body,
      \<lambda>user body. user = Some (str ''supabase[bot]'') \<and> prefix (str ''[supa]:'') body,
      \<lambda>user body. user = Some (str ''cursor[bot]'')
         \<and> prefix (str ''Cursor Bugbot has reviewed your changes'') body]"

definition isMetaComment :: "js_string option \<Rightarrow> js_string option \<Rightarrow> meta_filter list \<Rightarrow> bool" where
  "isMetaComment user body metaFilters =
     (case body of
        None \<Rightarrow> False
      | Some b \<Rightarrow> if b = [] then False else list_ex (\<lambda>f. f user b) metaFilters)"

definition isBot :: "js_string option \<Rightarrow> bool" where
  "isBot username =
     (case username of
        None \<Rightarrow> False
      | Some u \<Rightarrow>
          if u = [] then False
          else suffix (str ''[bot]'') u \<or> u = str ''Copilot'' \<or> sublist (str ''bot'') u \<or> u = str ''github-actions'')"

section \<open>Raw and normalized comments\<close>

text \<open>
  The three shapes the API returns. An optional field is \<open>None\<close> when it is \<open>null\<close> or
  absent. Identifiers are integers.
\<close>

record review_comment_raw =
  rc_id :: int
  rc_user :: "js_string option"
  rc_body :: "js_string option"
  rc_path :: "js_string option"
  rc_line :: "int option"
  rc_original_line :: "int option"
  rc_diff_hunk :: "js_string option"
  rc_created_at :: "js_string option"
  rc_updated_at :: "js_string option"
  rc_html_url :: "js_string option"
  rc_in_reply_to_id :: "int option"

record issue_comment_raw =
  ic_id :: int
  ic_user :: "js_string option"
  ic_body :: "js_string option"
  ic_created_at :: "js_string option"
  ic_updated_at :: "js_string option"
  ic_html_url :: "js_string option"

record review_raw =
  rv_id :: int
  rv_user :: "js_string option"
  rv_body :: "js_string option"
  rv_state :: "js_string option"
  rv_submitted_at :: "js_string option"
  rv_html_url :: "js_string option"

record raw_data =
  reviewComments :: "review_comment_raw list"
  issueComments :: "issue_comment_raw list"
  reviews :: "review_raw list"

datatype kind = review_comment | issue_comment | review

record reply =
  r_id :: int
  r_user :: "js_string option"
  r_body :: "js_string option"
  r_createdAt :: "js_string option"
  r_isBot :: bool

record comment =
  c_id :: int
  c_type :: kind
  c_user :: "js_string option"
  c_isBot :: bool
  c_path :: "js_string option"
  c_line :: "int option"
  c_diffHunk :: "js_string option"
  c_body :: "js_string option"
  c_state :: "js_string option"
  c_createdAt :: "js_string option"
  c_updatedAt :: "js_string option"
  c_url :: "js_string option"
  c_replies :: "reply list"
  c_hasHumanReply :: bool
  c_hasAnyReply :: bool
  c_isResolved :: bool

text \<open>Truthiness of an optional number and of an optional string, and the operator \<open>||\<close>.\<close>

definition truthy_num :: "int option \<Rightarrow> bool" where
  "truthy_num v = (case v of None \<Rightarrow> False | Some n \<Rightarrow> n \<noteq> 0)"

definition truthy_str :: "js_string option \<Rightarrow> bool" where
  "truthy_str v = (case v of None \<Rightarrow> False | Some t \<Rightarrow> t \<noteq> [])"

definition js_or_num :: "int option \<Rightarrow> int option \<Rightarrow> int option" where
  "js_or_num a b = (if truthy_num a then a else b)"

text \<open>
  \<open>Array.prototype.sort\<close> with a comparator. A comparator returns a number or \<open>NaN\<close>
  (\<open>None\<close>), and the sort reads \<open>NaN\<close> as \<open>+0\<close>. The sort is stable, so for a consistent
  comparator its result is the one of any stable sort; it is modelled as insertion sort.
  (Where the comparator is not consistent, ECMAScript leaves the order to the
  implementation.)
\<close>

definition sorts_before :: "int option \<Rightarrow> bool" where
  "sorts_before v = (case v of None \<Rightarrow> True | Some d \<Rightarrow> d \<le> 0)"

fun insert_cmp :: "('a \<Rightarrow> 'a \<Rightarrow> int option) \<Rightarrow> 'a \<Rightarrow> 'a list \<Rightarrow> 'a list" where
  "insert_cmp cmp x [] = [x]"
| "insert_cmp cmp x (y # ys) =
     (if sorts_before (cmp x y) then x # y # ys else y # insert_cmp cmp x ys)"

definition sort_cmp :: "('a \<Rightarrow> 'a \<Rightarrow> int option) \<Rightarrow> 'a list \<Rightarrow> 'a list" where
  "sort_cmp cmp xs = foldr (insert_cmp cmp) xs []"

text \<open>
  The comparator of \<open>processComments\<close>:
  \<open>new Date(b.createdAt).getTime() - new Date(a.createdAt).getTime()\<close>.
  \<open>getTime\<close> stands for \<open>new Date(x).getTime()\<close>, a built-in of the language: the time in
  milliseconds, or \<open>None\<close> for \<open>NaN\<close> (an invalid date). A difference with \<open>NaN\<close> is \<open>NaN\<close>.
  What the built-in makes of a field that is \<open>None\<close> is part of the parameter: an absent
  field (\<open>undefined\<close>) has the time \<open>NaN\<close>, a field that is \<open>null\<close> the time 0.
\<close>

definition newest_first ::
  "(js_string option \<Rightarrow> int option) \<Rightarrow> comment \<Rightarrow> comment \<Rightarrow> int option" where
  "newest_first getTime a b =
     (case (getTime (c_createdAt b), getTime (c_createdAt a)) of
        (Some tb, Some ta) \<Rightarrow> Some (tb - ta)
      | _ \<Rightarrow> None)"

text \<open>The order the sort is to establish: \<open>a\<close> is at least as new as \<open>b\<close>.\<close>

definition newer_eq :: "(js_string option \<Rightarrow> int option) \<Rightarrow> comment \<Rightarrow> comment \<Rightarrow> bool" where
  "newer_eq g a b \<longleftrightarrow> the (g (c_createdAt a)) \<ge> the (g (c_createdAt b))"

section \<open>Processing (\<open>processComments\<close>)\<close>

definition mk_reply :: "review_comment_raw \<Rightarrow> reply" where
  "mk_reply comment =
     \<lparr> r_id = rc_id comment,
       r_user = rc_user comment,
       r_body = cleanBody (rc_body comment),
       r_createdAt = rc_created_at comment,
       r_isBot = isBot (rc_user comment) \<rparr>"

text \<open>The first loop: the map from a parent id to the replies that name it, in input order.\<close>

definition add_reply ::
  "(int \<rightharpoonup> reply list) \<Rightarrow> review_comment_raw \<Rightarrow> (int \<rightharpoonup> reply list)" where
  "add_reply repliesMap comment =
     (if truthy_num (rc_in_reply_to_id comment)
      then
        let k = the (rc_in_reply_to_id comment);
            m = (if repliesMap k = None then repliesMap(k \<mapsto> []) else repliesMap)
        in m(k \<mapsto> the (m k) @ [mk_reply comment])
      else repliesMap)"

definition build_repliesMap :: "review_comment_raw list \<Rightarrow> (int \<rightharpoonup> reply list)" where
  "build_repliesMap cs = foldl add_reply Map.empty cs"

text \<open>\<open>repliesMap.get(k) || []\<close>\<close>

definition get_or_empty :: "(int \<rightharpoonup> reply list) \<Rightarrow> int \<Rightarrow> reply list" where
  "get_or_empty m k = (case m k of Some rs \<Rightarrow> rs | None \<Rightarrow> [])"

text \<open>The comment carries a parent id (the test \<open>if (comment.in_reply_to_id)\<close>) and it is \<open>k\<close>.\<close>

definition names_parent :: "int \<Rightarrow> review_comment_raw \<Rightarrow> bool" where
  "names_parent k c \<longleftrightarrow> truthy_num (rc_in_reply_to_id c) \<and> rc_in_reply_to_id c = Some k"

definition mk_review_comment :: "(int \<rightharpoonup> reply list) \<Rightarrow> review_comment_raw \<Rightarrow> comment" where
  "mk_review_comment repliesMap comment =
     (let replies = get_or_empty repliesMap (rc_id comment);
          hasHumanReply = list_ex (\<lambda>r. \<not> r_isBot r) replies;
          hasAnyReply = (length replies > 0)
      in \<lparr> c_id = rc_id comment,
           c_type = review_comment,
           c_user = rc_user comment,
           c_isBot = isBot (rc_user comment),
           c_path = rc_path comment,
           c_line = js_or_num (rc_line comment) (rc_original_line comment),
           c_diffHunk = (if truthy_str (rc_diff_hunk comment) then rc_diff_hunk comment else None),
           c_body = cleanBody (rc_body comment),
           c_state = None,
           c_createdAt = rc_created_at comment,
           c_updatedAt = rc_updated_at comment,
           c_url = rc_html_url comment,
           c_replies = replies,
           c_hasHumanReply = hasHumanReply,
           c_hasAnyReply = hasAnyReply,
           c_isResolved = False \<rparr>)"

definition mk_issue_comment :: "issue_comment_raw \<Rightarrow> comment" where
  "mk_issue_comment comment =
     \<lparr> c_id = ic_id comment,
       c_type = issue_comment,
       c_user = ic_user comment,
       c_isBot = isBot (ic_user comment),
       c_path = None,
       c_line = None,
       c_diffHunk = None,
       c_body = cleanBody (ic_body comment),
       c_state = None,
       c_createdAt = ic_created_at comment,
       c_updatedAt = ic_updated_at comment,
       c_url = ic_html_url comment,
       c_replies = [],
       c_hasHumanReply = False,
       c_hasAnyReply = False,
       c_isResolved = False \<rparr>"

definition mk_review :: "review_raw \<Rightarrow> comment" where
  "mk_review rv =
     \<lparr> c_id = rv_id rv,
       c_type = review,
       c_user = rv_user rv,
       c_isBot = isBot (rv_user rv),
       c_path = None,
       c_line = None,
       c_diffHunk = None,
       c_body = cleanBody (rv_body rv),
       c_state = rv_state rv,
       c_createdAt = rv_submitted_at rv,
       c_updatedAt = rv_submitted_at rv,
       c_url = rv_html_url rv,
       c_replies = [],
       c_hasHumanReply = False,
       c_hasAnyReply = False,
       c_isResolved = (rv_state rv = Some (str ''APPROVED'') \<or> rv_state rv = Some (str ''DISMISSED'')) \<rparr>"

text \<open>
  The guards of the three loops: what is not skipped by a \<open>continue\<close>.
  \<open>!review.body?.trim()\<close> holds for a missing body and for one that trims to the empty
  string.
\<close>

definition is_thread_root :: "meta_filter list \<Rightarrow> review_comment_raw \<Rightarrow> bool" where
  "is_thread_root metaFilters comment \<longleftrightarrow>
     \<not> truthy_num (rc_in_reply_to_id comment)
     \<and> \<not> isMetaComment (rc_user comment) (rc_body comment) metaFilters"

definition keeps_issue_comment :: "meta_filter list \<Rightarrow> issue_comment_raw \<Rightarrow> bool" where
  "keeps_issue_comment metaFilters comment \<longleftrightarrow>
     \<not> isMetaComment (ic_user comment) (ic_body comment) metaFilters"

definition keeps_review :: "meta_filter list \<Rightarrow> review_raw \<Rightarrow> bool" where
  "keeps_review metaFilters rv \<longleftrightarrow>
     \<not> isMetaComment (rv_user rv) (rv_body rv) metaFilters
     \<and> \<not> (case rv_body rv of None \<Rightarrow> True | Some b \<Rightarrow> trim b = [])"

text \<open>
  \<open>metaFiltersOpt\<close> is \<open>options.metaFilters\<close>; when it is missing the default list is used.
  \<open>unsorted\<close> is the array \<open>processed\<close> before the final sort.
\<close>

definition metaFilters_of :: "meta_filter list option \<Rightarrow> meta_filter list" where
  "metaFilters_of metaFiltersOpt =
     (case metaFiltersOpt of Some fs \<Rightarrow> fs | None \<Rightarrow> DEFAULT_META_FILTERS)"

definition unsorted :: "raw_data \<Rightarrow> meta_filter list option \<Rightarrow> comment list" where
  "unsorted data metaFiltersOpt =
     (let metaFilters = metaFilters_of metaFiltersOpt;
          repliesMap = build_repliesMap (reviewComments data);
          processed = [];
          processed = processed
            @ map (mk_review_comment repliesMap)
                (filter (is_thread_root metaFilters) (reviewComments data));
          processed = processed
            @ map mk_issue_comment (filter (keeps_issue_comment metaFilters) (issueComments data));
          processed = processed
            @ map mk_review (filter (keeps_review metaFilters) (reviews data))
      in processed)"

definition processComments ::
  "(js_string option \<Rightarrow> int option) \<Rightarrow> raw_data \<Rightarrow> meta_filter list option \<Rightarrow> comment list" where
  "processComments getTime data metaFiltersOpt =
     sort_cmp (newest_first getTime) (unsorted data metaFiltersOpt)"

section \<open>Filtering (\<open>filterComments\<close>)\<close>

text \<open>The options the command line parser produces, as far as they are read here.\<close>

record options =
  botsOnly :: bool
  humansOnly :: bool
  filter_opt :: "js_string option"
  watchInterval :: int
  watchTimeout :: int

definition filterComments :: "comment list \<Rightarrow> options \<Rightarrow> comment list" where
  "filterComments comments opts =
     (let filtered = comments;
          filtered =
            (if botsOnly opts then filter c_isBot filtered
             else if humansOnly opts then filter (\<lambda>c. \<not> c_isBot c) filtered
             else filtered);
          filtered =
            (if filter_opt opts = Some (str ''unresolved'')
             then filter (\<lambda>c. \<not> (c_isResolved c \<or> c_hasHumanReply c)) filtered
             else if filter_opt opts = Some (str ''unanswered'')
             then filter (\<lambda>c. \<not> c_hasAnyReply c) filtered
             else filtered)
      in filtered)"

text \<open>
  The same function on a store, where object identity is visible. A store holds the arrays
  allocated so far; an array reference is an index into it. \<open>Array.prototype.filter\<close>
  allocates a new array and leaves the one it reads as it is; the assignment
  \<open>let filtered = comments\<close> copies the reference. References handed to these functions
  point into the store.
\<close>

type_synonym store = "comment list list"

definition array_filter :: "(comment \<Rightarrow> bool) \<Rightarrow> store \<Rightarrow> nat \<Rightarrow> store \<times> nat" where
  "array_filter p h a = (h @ [filter p (h ! a)], length h)"

definition filterComments_ref :: "store \<Rightarrow> nat \<Rightarrow> options \<Rightarrow> store \<times> nat" where
  "filterComments_ref h comments opts =
     (let filtered = comments;
          (h, filtered) =
            (if botsOnly opts then array_filter c_isBot h filtered
             else if humansOnly opts then array_filter (\<lambda>c. \<not> c_isBot c) h filtered
             else (h, filtered));
          (h, filtered) =
            (if filter_opt opts = Some (str ''unresolved'')
             then array_filter (\<lambda>c. \<not> (c_isResolved c \<or> c_hasHumanReply c)) h filtered
             else if filter_opt opts = Some (str ''unanswered'')
             then array_filter (\<lambda>c. \<not> c_hasAnyReply c) h filtered
             else (h, filtered))
      in (h, filtered))"

section \<open>Paginated fetch (\<open>fetchAllPages\<close>)\<close>

text \<open>
  An exception is a value: \<open>new Error(message)\<close>. A status in a template literal is printed
  in decimal.
\<close>

datatype js_error = Error js_string

fun decimal :: "nat \<Rightarrow> js_string" where
  "decimal n =
     (if n < 10 then [48 + int n] else decimal (n div 10) @ [48 + int (n mod 10)])"

record 'a page_response =
  p_ok :: bool
  p_status :: nat
  p_data :: "'a list"
  p_link :: "js_string option"

text \<open>
  \<open>linkHeader.match(/<([^>]+)>;\s*rel="next"/)\<close>: the leftmost position where the pattern
  matches, and there the text of the group. The group is followed by \<open>>\<close>, so where the
  pattern matches the group is the whole run of characters other than \<open>>\<close>.
\<close>

definition rx_next :: regex where
  "rx_next =
     lit (str ''<'') @ [Once (NotChr (cu CHR ''>'')), Greedy (NotChr (cu CHR ''>''))] @ lit (str ''>;'')
       @ [Greedy Space] @ lit (str ''rel='' @ [0x22] @ str ''next'' @ [0x22])"

fun next_link :: "js_string \<Rightarrow> js_string option" where
  "next_link [] = None"
| "next_link (c # cs) =
     (if rmatch False rx_next (c # cs) \<noteq> None
      then Some (takeWhile (\<lambda>x. x \<noteq> (cu CHR ''>'')) cs)
      else next_link cs)"

text \<open>
  \<open>proxyFetch k url\<close> is the response to the \<open>k\<close>-th request of the run, sent to \<open>url\<close>
  (the headers are the same in every request). The loop may go on for ever when the
  server keeps naming a next page; then the result is \<open>None\<close>.
\<close>

partial_function (option) fetch_loop ::
  "(nat \<Rightarrow> js_string \<Rightarrow> 'a page_response) \<Rightarrow> nat \<Rightarrow> 'a list \<Rightarrow> js_string option
     \<Rightarrow> (js_error + 'a list) option" where
  "fetch_loop proxyFetch k results nextUrl =
     (if \<not> truthy_str nextUrl then Some (Inr results)
      else
        let response = proxyFetch k (the nextUrl) in
        if \<not> p_ok response
        then Some (Inl (Error (str ''API request failed: '' @ decimal (p_status response))))
        else
          fetch_loop proxyFetch (Suc k) (results @ p_data response)
            (if truthy_str (p_link response) then next_link (the (p_link response)) else None))"

declare fetch_loop.simps [code]

definition fetchAllPages ::
  "(nat \<Rightarrow> js_string \<Rightarrow> 'a page_response) \<Rightarrow> js_string \<Rightarrow> (js_error + 'a list) option" where
  "fetchAllPages proxyFetch url = fetch_loop proxyFetch 0 [] (Some url)"

text \<open>
  The URL of the \<open>k\<close>-th request of \<open>fetchAllPages\<close>, when the run gets that far: every
  earlier page was answered with success and named a next page.
\<close>

fun requested :: "(nat \<Rightarrow> js_string \<Rightarrow> 'a page_response) \<Rightarrow> js_string \<Rightarrow> nat \<Rightarrow> js_string option" where
  "requested proxyFetch url 0 = (if url = [] then None else Some url)"
| "requested proxyFetch url (Suc k) =
     (case requested proxyFetch url k of
        None \<Rightarrow> None
      | Some u \<Rightarrow>
          let response = proxyFetch k u in
          if p_ok response \<and> truthy_str (p_link response)
             \<and> truthy_str (next_link (the (p_link response)))
          then next_link (the (p_link response))
          else None)"

section \<open>Reply (\<open>replyToComment\<close>)\<close>

text \<open>
  A POST request is its URL and the \<open>body\<close> field of its JSON payload. A response carries
  \<open>ok\<close>, \<open>status\<close>, the entity of \<open>json()\<close> and the text of \<open>text()\<close>.
\<close>

record request =
  q_url :: js_string
  q_body :: js_string

record created =
  cr_id :: int
  cr_html_url :: js_string

record post_response =
  a_ok :: bool
  a_status :: nat
  a_json :: created
  a_text :: js_string

text \<open>
  \<open>post k q\<close> is the response to the \<open>k\<close>-th request of the call. The result is the list of
  requests sent, in order, and the value returned or the error thrown.
\<close>

definition replyToComment ::
  "js_string \<Rightarrow> js_string \<Rightarrow> nat \<Rightarrow> js_string \<Rightarrow> js_string \<Rightarrow> (nat \<Rightarrow> request \<Rightarrow> post_response)
     \<Rightarrow> request list \<times> (js_error + created)" where
  "replyToComment owner repo prNumber commentId message post =
     (let q1 = \<lparr> q_url = str ''https://api.github.com/repos/'' @ owner @ str ''/'' @ repo @ str ''/pulls/''
                     @ decimal prNumber @ str ''/comments/'' @ commentId @ str ''/replies'',
                 q_body = message \<rparr>;
          response = post 0 q1
      in if \<not> a_ok response
         then
           let q2 = \<lparr> q_url = str ''https://api.github.com/repos/'' @ owner @ str ''/'' @ repo
                          @ str ''/issues/'' @ decimal prNumber @ str ''/comments'',
                       q_body = str ''> Re: comment '' @ commentId @ [nl, nl] @ message \<rparr>;
               issueResponse = post 1 q2
           in if \<not> a_ok issueResponse
              then ([q1, q2],
                    Inl (Error (str ''Failed to reply: '' @ decimal (a_status issueResponse)
                                 @ str '' - '' @ a_text issueResponse)))
              else ([q1, q2], Inr (a_json issueResponse))
         else ([q1], Inr (a_json response)))"

section \<open>Watch mode (\<open>watchForComments\<close>)\<close>

text \<open>
  The world of one watch run: \<open>fetchPRComments k\<close> is the outcome of the \<open>k\<close>-th call of
  \<open>fetchPRComments\<close> (the three collections, or the error thrown), \<open>now k\<close> the \<open>k\<close>-th
  reading of \<open>Date.now()\<close> in milliseconds, and \<open>getTime\<close> the date parser used by the sort.
\<close>

record world =
  fetchPRComments :: "nat \<Rightarrow> js_error + raw_data"
  now :: "nat \<Rightarrow> int"
  getTime :: "js_string option \<Rightarrow> int option"

text \<open>What the run does that can be observed: sleeps, fetches and the blocks it prints.\<close>

datatype event =
    Sleep int                 \<comment> \<open>\<open>await sleep(seconds)\<close>\<close>
  | Fetch                     \<comment> \<open>a call of \<open>fetchPRComments\<close>\<close>
  | Tracked nat               \<comment> \<open>"Initial state: n existing comments tracked"\<close>
  | Existing "comment list"   \<comment> \<open>the block EXISTING COMMENTS\<close>
  | Detected nat              \<comment> \<open>NEW COMMENTS DETECTED, "Found n new comment(s)"\<close>
  | Caught nat                \<comment> \<open>"Caught n additional comment(s)"\<close>
  | Report "comment list"     \<comment> \<open>the comments printed, formatted and as JSON\<close>
  | NoNew nat int             \<comment> \<open>"Poll #n: No new comments (s idle)"\<close>
  | Complete nat              \<comment> \<open>WATCH COMPLETE, "Total comments tracked: n"\<close>

record wstate =
  seenIds :: "int set"
  pollCount :: nat
  calls :: nat      \<comment> \<open>calls of \<open>fetchPRComments\<close> so far\<close>
  reads :: nat      \<comment> \<open>readings of \<open>Date.now()\<close> so far\<close>
  out :: "event list"

datatype outcome =
    Reported "comment list"   \<comment> \<open>returned after new comments\<close>
  | TimedOut                  \<comment> \<open>returned after the idle timeout\<close>
  | Aborted js_error          \<comment> \<open>an error of a fetch, not caught\<close>

text \<open>\<open>Math.round(ms / 1000)\<close> on integers: halves round up.\<close>

definition round_seconds :: "int \<Rightarrow> int" where
  "round_seconds ms = (ms + 500) div 1000"

text \<open>
  One fetch, normalize and filter pass; \<open>processComments\<close> is called without options.
\<close>

definition fetch_pass :: "world \<Rightarrow> options \<Rightarrow> nat \<Rightarrow> js_error + comment list" where
  "fetch_pass w opts k =
     (case fetchPRComments w k of
        Inl e \<Rightarrow> Inl e
      | Inr rawData \<Rightarrow> Inr (filterComments (processComments (getTime w) rawData None) opts))"

text \<open>
  The body of \<open>while (true)\<close>: \<open>Inl\<close> when the function returns or throws in this
  iteration, \<open>Inr\<close> when the loop goes round again.
\<close>

definition watch_iteration ::
  "world \<Rightarrow> options \<Rightarrow> int \<Rightarrow> wstate \<Rightarrow> (outcome \<times> wstate) + wstate" where
  "watch_iteration w opts lastActivityTime st =
     (let st = st\<lparr> out := out st @ [Sleep (watchInterval opts)] \<rparr>;
          st = st\<lparr> pollCount := pollCount st + 1 \<rparr>;
          st = st\<lparr> out := out st @ [Fetch] \<rparr>
      in case fetch_pass w opts (calls st) of
           Inl e \<Rightarrow> Inl (Aborted e, st\<lparr> calls := calls st + 1 \<rparr>)
         | Inr filtered \<Rightarrow>
             let st = st\<lparr> calls := calls st + 1 \<rparr>;
                 newComments = filter (\<lambda>c. c_id c \<notin> seenIds st) filtered
             in if length newComments > 0
                then
                  let st = st\<lparr> seenIds := seenIds st \<union> c_id ` set newComments \<rparr>;
                      st = st\<lparr> out := out st @ [Detected (length newComments)] \<rparr>;
                      st = st\<lparr> out := out st @ [Sleep 5] \<rparr>;
                      st = st\<lparr> out := out st @ [Fetch] \<rparr>
                  in case fetch_pass w opts (calls st) of
                       Inl e \<Rightarrow> Inl (Aborted e, st\<lparr> calls := calls st + 1 \<rparr>)
                     | Inr graceFiltered \<Rightarrow>
                         let st = st\<lparr> calls := calls st + 1 \<rparr>;
                             lateComments = filter (\<lambda>c. c_id c \<notin> seenIds st) graceFiltered;
                             st = st\<lparr> seenIds := seenIds st \<union> c_id ` set lateComments \<rparr>;
                             newComments = newComments @ lateComments;
                             st = (if length lateComments > 0
                                   then st\<lparr> out := out st @ [Caught (length lateComments)] \<rparr>
                                   else st);
                             st = st\<lparr> out := out st @ [Report newComments] \<rparr>
                         in Inl (Reported newComments, st)
                else
                  let inactiveSeconds = round_seconds (now w (reads st) - lastActivityTime);
                      st = st\<lparr> reads := reads st + 1 \<rparr>;
                      st = st\<lparr> out := out st @ [NoNew (pollCount st) inactiveSeconds] \<rparr>
                  in if inactiveSeconds \<ge> watchTimeout opts
                     then Inl (TimedOut, st\<lparr> out := out st @ [Complete (card (seenIds st))] \<rparr>)
                     else Inr st)"

text \<open>The loop; \<open>None\<close> when it never ends.\<close>

partial_function (option) watch_loop ::
  "world \<Rightarrow> options \<Rightarrow> int \<Rightarrow> wstate \<Rightarrow> (outcome \<times> wstate) option" where
  "watch_loop w opts lastActivityTime st =
     (case watch_iteration w opts lastActivityTime st of
        Inl done \<Rightarrow> Some done
      | Inr st' \<Rightarrow> watch_loop w opts lastActivityTime st')"

declare watch_loop.simps [code]

text \<open>The whole function: the first reading of the clock, the initial pass, the loop.\<close>

definition watchForComments :: "world \<Rightarrow> options \<Rightarrow> (outcome \<times> wstate) option" where
  "watchForComments w opts =
     (let st = \<lparr> seenIds = {}, pollCount = 0, calls = 0, reads = 0, out = [] \<rparr>;
          lastActivityTime = now w (reads st);
          st = st\<lparr> reads := reads st + 1 \<rparr>;
          st = st\<lparr> out := out st @ [Fetch] \<rparr>
      in case fetch_pass w opts (calls st) of
           Inl e \<Rightarrow> Some (Aborted e, st\<lparr> calls := calls st + 1 \<rparr>)
         | Inr initialFiltered \<Rightarrow>
             let st = st\<lparr> calls := calls st + 1 \<rparr>;
                 st = st\<lparr> seenIds := seenIds st \<union> c_id ` set initialFiltered \<rparr>;
                 st = st\<lparr> out := out st @ [Tracked (length initialFiltered)] \<rparr>;
                 st = (if length initialFiltered > 0
                       then st\<lparr> out := out st @ [Existing initialFiltered] \<rparr>
                       else st)
             in watch_loop w opts lastActivityTime st)"

section \<open>Example data\<close>

text \<open>
  An inline comment as the API sends it, with the fields that vary between the examples:
  id, login, body, creation time and parent id.
\<close>

definition example_comment ::
  "int \<Rightarrow> js_string \<Rightarrow> js_string \<Rightarrow> js_string \<Rightarrow> int option \<Rightarrow> review_comment_raw" where
  "example_comment i login body created parent =
     \<lparr> rc_id = i,
       rc_user = Some login,
       rc_body = Some body,
       rc_path = Some (str ''src/index.js''),
       rc_line = Some 10,
       rc_original_line = Some 10,
       rc_diff_hunk = Some (str ''@@ -1,3 +1,4 @@''),
       rc_created_at = Some created,
       rc_updated_at = Some created,
       rc_html_url = Some (str ''https://github.com/org/repo/pull/1#discussion_r1''),
       rc_in_reply_to_id = parent \<rparr>"

definition example_review :: "int \<Rightarrow> js_string \<Rightarrow> js_string option \<Rightarrow> js_string \<Rightarrow> js_string \<Rightarrow> review_raw" where
  "example_review i login body state submitted =
     \<lparr> rv_id = i,
       rv_user = Some login,
       rv_body = body,
       rv_state = Some state,
       rv_submitted_at = Some submitted,
       rv_html_url = Some (str ''https://github.com/org/repo/pull/1#pullrequestreview-1'') \<rparr>"

text \<open>
  The inline comments and verdicts of the examples: three findings of three consecutive
  days; a thread root with a reply and a reply to that reply; a reply to a comment that
  is not there; a verdict with a text and one made of blanks; a pending verdict, which
  has no \<open>submitted_at\<close>, and a verdict submitted on the third day.
\<close>

definition finding1 :: review_comment_raw where
  "finding1 = example_comment 1 (str ''cursor[bot]'') (str ''First'') (str ''2025-01-01T00:00:00Z'') None"

definition finding2 :: review_comment_raw where
  "finding2 = example_comment 2 (str ''cursor[bot]'') (str ''Second'') (str ''2025-01-02T00:00:00Z'') None"

definition finding3 :: review_comment_raw where
  "finding3 = example_comment 3 (str ''cursor[bot]'') (str ''Third'') (str ''2025-01-03T00:00:00Z'') None"

definition root_a :: review_comment_raw where
  "root_a = example_comment 1 (str ''cursor[bot]'') (str ''A finding'') (str ''2025-01-01T00:00:00Z'') None"

definition reply_b :: review_comment_raw where
  "reply_b = example_comment 2 (str ''alice'') (str ''Fixed'') (str ''2025-01-02T00:00:00Z'') (Some 1)"

definition reply_c :: review_comment_raw where
  "reply_c = example_comment 3 (str ''bob'') (str ''Thanks'') (str ''2025-01-03T00:00:00Z'') (Some 2)"

definition orphan :: review_comment_raw where
  "orphan = example_comment 2 (str ''alice'') (str ''Fixed'') (str ''2025-01-02T00:00:00Z'') (Some 99)"

definition verdict_text :: review_raw where
  "verdict_text =
     example_review 7 (str ''alice'') (Some (str ''Looks good'')) (str ''APPROVED'')
       (str ''2025-01-02T00:00:00Z'')"

definition verdict_blank :: review_raw where
  "verdict_blank =
     example_review 8 (str ''bob'') (Some (str ''  '')) (str ''APPROVED'')
       (str ''2025-01-03T00:00:00Z'')"

definition verdict_pending :: review_raw where
  "verdict_pending =
     \<lparr> rv_id = 9,
       rv_user = Some (str ''alice''),
       rv_body = Some (str ''Draft notes''),
       rv_state = Some (str ''PENDING''),
       rv_submitted_at = None,
       rv_html_url = Some (str ''https://github.com/org/repo/pull/1#pullrequestreview-9'') \<rparr>"

definition verdict_late :: review_raw where
  "verdict_late =
     example_review 10 (str ''alice'') (Some (str ''Needs work'')) (str ''CHANGES_REQUESTED'')
       (str ''2025-01-03T00:00:00Z'')"

text \<open>
  The times of the three dates the examples use, in milliseconds; any other text is no
  date, and neither is a field that is absent (\<open>new Date(undefined).getTime()\<close> is \<open>NaN\<close>).
\<close>

definition example_time :: "js_string option \<Rightarrow> int option" where
  "example_time t =
     (if t = Some (str ''2025-01-01T00:00:00Z'') then Some 1735689600000
      else if t = Some (str ''2025-01-02T00:00:00Z'') then Some 1735776000000
      else if t = Some (str ''2025-01-03T00:00:00Z'') then Some 1735862400000
      else None)"

text \<open>A server that answers every request with status 500.\<close>

definition failing_server :: "nat \<Rightarrow> js_string \<Rightarrow> int page_response" where
  "failing_server k url = \<lparr> p_ok = False, p_status = 500, p_data = [], p_link = None \<rparr>"

text \<open>
  A server with two pages: the first request succeeds and names a next page, the second
  is answered with status 502.
\<close>

definition second_page_fails :: "nat \<Rightarrow> js_string \<Rightarrow> int page_response" where
  "second_page_fails k url =
     (if k = 0
      then \<lparr> p_ok = True, p_status = 200, p_data = [1, 2],
             p_link = Some (str ''<https://api.github.com/page2>; rel='' @ [0x22] @ str ''next''
                            @ [0x22]) \<rparr>
      else \<lparr> p_ok = False, p_status = 502, p_data = [], p_link = None \<rparr>)"

text \<open>
  A server for replies: the first request is answered with the given status (a success
  when it is 2xx); the second is refused with 422 when \<open>both\<close> holds and accepted
  otherwise.
\<close>

definition example_post :: "nat \<Rightarrow> bool \<Rightarrow> nat \<Rightarrow> request \<Rightarrow> post_response" where
  "example_post first both k q =
     (if k = 0
      then \<lparr> a_ok = (200 \<le> first \<and> first < 300), a_status = first,
             a_json = \<lparr> cr_id = 76,
                        cr_html_url = str ''https://github.com/org/repo/pull/1#discussion_r76'' \<rparr>,
             a_text = str ''Not Found'' \<rparr>
      else if both
      then \<lparr> a_ok = False, a_status = 422,
             a_json = \<lparr> cr_id = 0, cr_html_url = [] \<rparr>, a_text = str ''Validation Failed'' \<rparr>
      else \<lparr> a_ok = True, a_status = 201,
             a_json = \<lparr> cr_id = 77,
                        cr_html_url = str ''https://github.com/org/repo/pull/1#issuecomment-77'' \<rparr>,
             a_text = [] \<rparr>)"

text \<open>
  The two requests of a reply with the message "Done" to comment 42 of pull request 1 of
  \<open>org/repo\<close>: to the replies endpoint of the inline comment, and to the general comments.
\<close>

definition inline_request :: request where
  "inline_request =
     \<lparr> q_url = str ''https://api.github.com/repos/org/repo/pulls/1/comments/42/replies'',
       q_body = str ''Done'' \<rparr>"

definition general_request :: request where
  "general_request =
     \<lparr> q_url = str ''https://api.github.com/repos/org/repo/issues/1/comments'',
       q_body = str ''> Re: comment 42'' @ [nl, nl] @ str ''Done'' \<rparr>"

text \<open>An automated and a human general comment, and the options of a plain listing.\<close>

definition bot_comment :: comment where
  "bot_comment =
     mk_issue_comment \<lparr> ic_id = 11, ic_user = Some (str ''cursor[bot]''), ic_body = Some (str ''A finding''),
       ic_created_at = Some (str ''2025-01-01T00:00:00Z''), ic_updated_at = Some (str ''2025-01-01T00:00:00Z''),
       ic_html_url = Some (str ''https://github.com/org/repo/pull/1#issuecomment-11'') \<rparr>"

definition human_comment :: comment where
  "human_comment =
     mk_issue_comment \<lparr> ic_id = 12, ic_user = Some (str ''alice''), ic_body = Some (str ''Looks good''),
       ic_created_at = Some (str ''2025-01-02T00:00:00Z''), ic_updated_at = Some (str ''2025-01-02T00:00:00Z''),
       ic_html_url = Some (str ''https://github.com/org/repo/pull/1#issuecomment-12'') \<rparr>"

definition plain_options :: options where
  "plain_options =
     \<lparr> botsOnly = False, humansOnly = False, filter_opt = None,
       watchInterval = 30, watchTimeout = 600 \<rparr>"

text \<open>
  A world for the watch loop: nothing at the first fetch, one inline comment at the
  second, and a second inline comment that lands during the grace period; when \<open>fails\<close>
  holds, the fetch of the grace period fails instead. The clock stands still.
\<close>

definition example_world :: "bool \<Rightarrow> world" where
  "example_world fails =
     \<lparr> fetchPRComments = (\<lambda>k.
         if fails \<and> k \<ge> 2 then Inl (Error (str ''API request failed: 502'')) else
         Inr \<lparr> reviewComments =
                 (if k = 0 then []
                  else if k = 1
                  then [finding1]
                  else [finding1,
                        finding2]),
               issueComments = [], reviews = [] \<rparr>),
       now = (\<lambda>k. 0),
       getTime = example_time \<rparr>"

text \<open>The two entities that normalization makes of the two findings of that world.\<close>

definition entity1 :: comment where
  "entity1 = mk_review_comment Map.empty finding1"

definition entity2 :: comment where
  "entity2 = mk_review_comment Map.empty finding2"

text \<open>The state of the watch run in that world when the loop is entered.\<close>

definition primed :: wstate where
  "primed = \<lparr> seenIds = {}, pollCount = 0, calls = 1, reads = 1, out = [Fetch, Tracked 0] \<rparr>"

section \<open>Properties of the sanitizer\<close>

lemma replace_g_no_match: "\<not> has_match ic r s \<Longrightarrow> replace_g ic r rep s = s"
  by (induction s) auto

lemma rmatch_greedy_chr:
  "rmatch False [Greedy (Chr a)] s = Some (length (takeWhile ((=) a) s))"
  by (induction s) auto

lemma rmatch_newlines:
  "rmatch False rx_newlines s =
     (if prefix [nl, nl, nl] s then Some (length (takeWhile ((=) nl) s)) else None)"
proof -
  have g: "\<And>t. rmatch False [Greedy (Chr nl)] t = Some (length (takeWhile ((=) nl) t))"
    by (rule rmatch_greedy_chr)
  show ?thesis
  proof (cases s)
    case Nil
    then show ?thesis by (simp add: rx_newlines_def)
  next
    case (Cons a s1)
    note s = Cons
    show ?thesis
    proof (cases s1)
      case Nil
      then show ?thesis using s by (simp add: rx_newlines_def)
    next
      case (Cons b s2)
      note s1 = Cons
      show ?thesis
      proof (cases s2)
        case Nil
        then show ?thesis using s s1 by (simp add: rx_newlines_def)
      next
        case (Cons c s3)
        then show ?thesis using s s1 g[of s3] by (auto simp add: rx_newlines_def)
      qed
    qed
  qed
qed

lemma has_match_newlines: "has_match False rx_newlines s \<longleftrightarrow> sublist [nl, nl, nl] s"
  by (induction s) (auto simp: rmatch_newlines sublist_Cons_right)

lemma collapse_Nil: "collapse [] = []"
  by (simp add: collapse_def rmatch_newlines)

lemma collapse_Cons:
  "collapse (c # cs) =
     (if prefix [nl, nl, nl] (c # cs) then [nl, nl] @ collapse (dropWhile ((=) nl) cs)
      else c # collapse cs)"
  by (auto simp: collapse_def rmatch_newlines dropWhile_eq_drop)

lemma sublist_trim: "sublist (trim s) s"
proof -
  let ?a = "dropWhile is_space s"
  have "suffix (dropWhile is_space (rev ?a)) (rev ?a)"
    by (rule suffix_dropWhile)
  then have "prefix (trim s) ?a"
    by (simp add: trim_def suffix_to_prefix)
  moreover have "suffix ?a s"
    by (rule suffix_dropWhile)
  ultimately show ?thesis
    by (meson prefix_imp_sublist suffix_imp_sublist sublist_order.order_trans)
qed

lemma last_dropWhile: "dropWhile P xs \<noteq> [] \<Longrightarrow> last (dropWhile P xs) = last xs"
  by (induction xs) (auto split: if_splits)

lemma trim_ends:
  "trim s = [] \<or> (\<not> is_space (hd (trim s)) \<and> \<not> is_space (last (trim s)))"
proof (cases "trim s = []")
  case True
  then show ?thesis by simp
next
  case False
  let ?a = "dropWhile is_space s"
  let ?b = "dropWhile is_space (rev ?a)"
  have t: "trim s = rev ?b" by (simp add: trim_def)
  from False t have b: "?b \<noteq> []" by simp
  have a: "?a \<noteq> []"
  proof
    assume "?a = []"
    then have "?b = []" by (simp only: rev.simps dropWhile.simps)
    with b show False by simp
  qed
  from b have "\<not> is_space (hd ?b)" by (rule hd_dropWhile)
  then have l: "\<not> is_space (last (trim s))" using b t by (simp add: last_rev)
  have "last ?b = last (rev ?a)" using b by (rule last_dropWhile)
  also have "\<dots> = hd ?a" using a by (simp add: last_rev)
  finally have "hd (trim s) = hd ?a" using b t by (simp add: hd_rev)
  moreover have "\<not> is_space (hd ?a)" using a by (rule hd_dropWhile)
  ultimately show ?thesis using l by simp
qed

lemma trim_fix:
  assumes "s = [] \<or> (\<not> is_space (hd s) \<and> \<not> is_space (last s))"
  shows "trim s = s"
proof (cases "s = []")
  case True
  then show ?thesis by (simp add: trim_def)
next
  case False
  with assms have h: "\<not> is_space (hd s)" and l: "\<not> is_space (last s)" by auto
  from False h have 1: "dropWhile is_space s = s" by (cases s) auto
  from False l have "\<not> is_space (hd (rev s))" by (simp add: hd_rev)
  with False have 2: "dropWhile is_space (rev s) = rev s" by (cases "rev s") auto
  show ?thesis by (simp add: trim_def 1 2)
qed

lemma trim_idem: "trim (trim s) = trim s"
  by (rule trim_fix) (rule trim_ends)

lemma takeWhile_dropWhile_Nil: "takeWhile P (dropWhile P xs) = []"
  by (induction xs) auto

lemma takeWhile_collapse:
  "takeWhile ((=) nl) (collapse s) = take 2 (takeWhile ((=) nl) s)"
proof (induction "length s" arbitrary: s rule: less_induct)
  case less
  show ?case
  proof (cases s)
    case Nil
    then show ?thesis by (simp add: collapse_Nil)
  next
    case (Cons c cs)
    show ?thesis
    proof (cases "prefix [nl, nl, nl] (c # cs)")
      case True
      let ?d = "dropWhile ((=) nl) cs"
      have "length ?d < length s" using Cons
        by (simp add: le_imp_less_Suc length_dropWhile_le)
      then have "takeWhile ((=) nl) (collapse ?d) = take 2 (takeWhile ((=) nl) ?d)"
        by (rule less)
      then have "takeWhile ((=) nl) (collapse ?d) = []"
        by (simp add: takeWhile_dropWhile_Nil)
      moreover from True obtain r where "c = nl" and "cs = nl # nl # r"
        by (auto simp: prefix_def)
      ultimately show ?thesis using True
        by (simp add: collapse_Cons Cons)
    next
      case False
      have "length cs < length s" using Cons by simp
      then have ih: "takeWhile ((=) nl) (collapse cs) = take 2 (takeWhile ((=) nl) cs)"
        by (rule less)
      from False have "c = nl \<Longrightarrow> length (takeWhile ((=) nl) cs) \<le> 1"
        by (cases cs; cases "tl cs") (auto simp: prefix_Cons split: if_splits)
      then show ?thesis using False Cons ih
        by (auto simp: collapse_Cons)
    qed
  qed
qed

lemma no_triple_collapse: "\<not> sublist [nl, nl, nl] (collapse s)"
proof (induction "length s" arbitrary: s rule: less_induct)
  case less
  show ?case
  proof (cases s)
    case Nil
    then show ?thesis by (simp add: collapse_Nil)
  next
    case (Cons c cs)
    show ?thesis
    proof (cases "prefix [nl, nl, nl] (c # cs)")
      case True
      let ?d = "dropWhile ((=) nl) cs"
      have "length ?d < length s" using Cons
        by (simp add: le_imp_less_Suc length_dropWhile_le)
      then have ih: "\<not> sublist [nl, nl, nl] (collapse ?d)"
        by (rule less)
      have "takeWhile ((=) nl) (collapse ?d) = []"
        by (simp add: takeWhile_collapse takeWhile_dropWhile_Nil)
      then have "\<not> prefix [nl] (collapse ?d)"
        by (cases "collapse ?d") (auto split: if_splits)
      then have "\<not> prefix [nl, nl, nl] (nl # nl # collapse ?d)"
        and "\<not> prefix [nl, nl, nl] (nl # collapse ?d)"
        by (auto simp: prefix_def)
      then show ?thesis using True Cons ih
        by (simp add: collapse_Cons sublist_Cons_right del: Cons_prefix_Cons)
    next
      case False
      have "length cs < length s" using Cons by simp
      then have ih: "\<not> sublist [nl, nl, nl] (collapse cs)"
        by (rule less)
      have np: "\<not> prefix [nl, nl, nl] (c # collapse cs)"
      proof
        assume p: "prefix [nl, nl, nl] (c # collapse cs)"
        then obtain r where c: "c = nl" and "collapse cs = nl # nl # r"
          by (auto simp: prefix_def)
        then have "take 2 (takeWhile ((=) nl) (collapse cs)) = [nl, nl]"
          by simp
        then have "take 2 (takeWhile ((=) nl) cs) = [nl, nl]"
          by (simp add: takeWhile_collapse)
        then have "prefix [nl, nl] cs"
          by (cases cs; cases "tl cs") (auto split: if_splits)
        with c False show False by (simp add: prefix_Cons)
      qed
      have "collapse s = c # collapse cs"
        using False by (simp only: Cons collapse_Cons if_False)
      then show ?thesis using np ih
        by (auto simp only: sublist_Cons_right)
    qed
  qed
qed

lemma cleanBody_Some:
  "cleanBody (Some b) =
     (if b = [] then Some []
      else Some (trim (collapse (replace_g True rx_cursor []
             (replace_g True rx_details [] (replace_g False rx_html_comment [] b))))))"
  by (simp add: cleanBody_def collapse_def)

lemma collapse_fix: "\<not> sublist [nl, nl, nl] s \<Longrightarrow> collapse s = s"
  unfolding collapse_def by (rule replace_g_no_match) (simp add: has_match_newlines)

lemma no_triple_trim_collapse: "\<not> sublist [nl, nl, nl] (trim (collapse s))"
  using no_triple_collapse [of s] sublist_trim [of "collapse s"]
  by (meson sublist_order.order_trans)

section \<open>Properties of the sort\<close>

lemma mset_insert_cmp: "mset (insert_cmp cmp x xs) = add_mset x (mset xs)"
  by (induction xs) auto

lemma mset_sort_cmp: "mset (sort_cmp cmp xs) = mset xs"
  by (induction xs) (auto simp: sort_cmp_def mset_insert_cmp)

lemma set_sort_cmp: "set (sort_cmp cmp xs) = set xs"
  by (metis mset_sort_cmp set_mset_mset)

lemma set_insert_cmp: "set (insert_cmp cmp x xs) = insert x (set xs)"
  by (metis mset_insert_cmp set_mset_mset set_mset_add_mset_insert)

lemma sorted_insert_cmp:
  assumes "g (c_createdAt x) \<noteq> None" and "\<forall>y \<in> set ys. g (c_createdAt y) \<noteq> None"
    and "sorted_wrt (newer_eq g) ys"
  shows "sorted_wrt (newer_eq g) (insert_cmp (newest_first g) x ys)"
  using assms
proof (induction ys)
  case Nil
  then show ?case by simp
next
  case (Cons y ys)
  from Cons.prems obtain tx ty where t: "g (c_createdAt x) = Some tx" "g (c_createdAt y) = Some ty"
    by auto
  show ?case
  proof (cases "sorts_before (newest_first g x y)")
    case True
    then have "ty \<le> tx" using t by (simp add: sorts_before_def newest_first_def)
    then have "newer_eq g x y" using t by (simp add: newer_eq_def)
    moreover have "\<forall>z \<in> set ys. newer_eq g y z" using Cons.prems(3) by simp
    ultimately have "\<forall>z \<in> set (y # ys). newer_eq g x z"
      by (auto simp: newer_eq_def)
    then show ?thesis using True Cons.prems(3) by simp
  next
    case False
    then have "tx < ty" using t by (simp add: sorts_before_def newest_first_def)
    then have "newer_eq g y x" using t by (simp add: newer_eq_def)
    moreover have "sorted_wrt (newer_eq g) (insert_cmp (newest_first g) x ys)"
      using Cons by simp
    ultimately show ?thesis using False Cons.prems(3)
      by (simp add: set_insert_cmp)
  qed
qed

lemma sorted_sort_cmp:
  "\<forall>y \<in> set xs. g (c_createdAt y) \<noteq> None \<Longrightarrow> sorted_wrt (newer_eq g) (sort_cmp (newest_first g) xs)"
proof (induction xs)
  case Nil
  then show ?case by (simp add: sort_cmp_def)
next
  case (Cons x xs)
  have "sort_cmp (newest_first g) (x # xs) = insert_cmp (newest_first g) x (sort_cmp (newest_first g) xs)"
    by (simp add: sort_cmp_def)
  then show ?case using Cons by (simp add: sorted_insert_cmp set_sort_cmp)
qed

section \<open>Properties of the normalizer\<close>

lemma get_add_reply:
  "get_or_empty (add_reply m c) k = get_or_empty m k @ (if names_parent k c then [mk_reply c] else [])"
  by (auto simp: get_or_empty_def add_reply_def names_parent_def truthy_num_def Let_def split: option.splits)

lemma get_foldl_add_reply:
  "get_or_empty (foldl add_reply m cs) k = get_or_empty m k @ map mk_reply (filter (names_parent k) cs)"
  by (induction cs arbitrary: m) (simp_all add: get_add_reply)

lemma get_build_repliesMap:
  "get_or_empty (build_repliesMap cs) k = map mk_reply (filter (names_parent k) cs)"
  by (simp add: build_repliesMap_def get_foldl_add_reply) (simp add: get_or_empty_def)

lemma unsorted_eq:
  "unsorted data mf =
     map (mk_review_comment (build_repliesMap (reviewComments data)))
       (filter (is_thread_root (metaFilters_of mf)) (reviewComments data))
     @ map mk_issue_comment (filter (keeps_issue_comment (metaFilters_of mf)) (issueComments data))
     @ map mk_review (filter (keeps_review (metaFilters_of mf)) (reviews data))"
  by (simp add: unsorted_def Let_def)

lemma set_processComments: "set (processComments g data mf) = set (unsorted data mf)"
  by (simp add: processComments_def set_sort_cmp)

lemma mk_review_comment_fields:
  "c_id (mk_review_comment m r) = rc_id r"
  "c_type (mk_review_comment m r) = review_comment"
  "c_createdAt (mk_review_comment m r) = rc_created_at r"
  "c_replies (mk_review_comment m r) = get_or_empty m (rc_id r)"
  "c_isResolved (mk_review_comment m r) = False"
  by (simp_all add: mk_review_comment_def Let_def)

lemma replies_mk_review_comment:
  "c_replies (mk_review_comment (build_repliesMap cs) r)
     = map mk_reply (filter (names_parent (rc_id r)) cs)"
  by (simp add: mk_review_comment_fields get_build_repliesMap)

lemma mk_review_comment_cong:
  "get_or_empty m (rc_id r) = get_or_empty m' (rc_id r)
     \<Longrightarrow> mk_review_comment m r = mk_review_comment m' r"
  by (simp add: mk_review_comment_def)

lemma reply_without_root_dropped:
  assumes "names_parent p c"
    and "\<forall>r \<in> set (xs @ ys). is_thread_root (metaFilters_of mf) r \<longrightarrow> rc_id r \<noteq> p"
  shows "unsorted \<lparr>reviewComments = xs @ c # ys, issueComments = ics, reviews = rvs\<rparr> mf
       = unsorted \<lparr>reviewComments = xs @ ys, issueComments = ics, reviews = rvs\<rparr> mf"
proof -
  let ?MF = "metaFilters_of mf"
  from assms(1) have nr: "\<not> is_thread_root ?MF c"
    by (auto simp: names_parent_def is_thread_root_def)
  then have roots: "filter (is_thread_root ?MF) (xs @ c # ys) = filter (is_thread_root ?MF) (xs @ ys)"
    by simp
  have "mk_review_comment (build_repliesMap (xs @ c # ys)) r
        = mk_review_comment (build_repliesMap (xs @ ys)) r"
    if "r \<in> set (filter (is_thread_root ?MF) (xs @ ys))" for r
  proof (rule mk_review_comment_cong)
    from that assms(2) have "rc_id r \<noteq> p" by auto
    with assms(1) have "\<not> names_parent (rc_id r) c"
      by (auto simp: names_parent_def)
    then show "get_or_empty (build_repliesMap (xs @ c # ys)) (rc_id r)
             = get_or_empty (build_repliesMap (xs @ ys)) (rc_id r)"
      by (simp add: get_build_repliesMap)
  qed
  then have "map (mk_review_comment (build_repliesMap (xs @ c # ys))) (filter (is_thread_root ?MF) (xs @ ys))
           = map (mk_review_comment (build_repliesMap (xs @ ys))) (filter (is_thread_root ?MF) (xs @ ys))"
    by (simp only: map_eq_conv) blast
  then show ?thesis
    by (simp only: unsorted_eq raw_data.simps roots)
qed

lemma review_comment_origin:
  assumes "e \<in> set (processComments g data mf)" and "c_type e = review_comment"
  shows "\<exists>r \<in> set (reviewComments data). is_thread_root (metaFilters_of mf) r
           \<and> e = mk_review_comment (build_repliesMap (reviewComments data)) r"
  using assms
  by (auto simp: set_processComments unsorted_eq mk_issue_comment_def mk_review_def)

lemma replies_origin:
  assumes "e \<in> set (processComments g data mf)" and "rep \<in> set (c_replies e)"
  shows "\<exists>r \<in> set (reviewComments data). is_thread_root (metaFilters_of mf) r
           \<and> e = mk_review_comment (build_repliesMap (reviewComments data)) r
           \<and> (\<exists>x \<in> set (reviewComments data). names_parent (rc_id r) x \<and> rep = mk_reply x)"
proof -
  from assms have "c_type e = review_comment"
    by (auto simp: set_processComments unsorted_eq mk_issue_comment_def mk_review_def
        mk_review_comment_fields)
  with assms(1) obtain r where r: "r \<in> set (reviewComments data)"
      "is_thread_root (metaFilters_of mf) r"
      "e = mk_review_comment (build_repliesMap (reviewComments data)) r"
    using review_comment_origin by blast
  with assms(2) have "rep \<in> set (map mk_reply (filter (names_parent (rc_id r)) (reviewComments data)))"
    by (simp only: replies_mk_review_comment)
  then obtain x where "x \<in> set (reviewComments data)" "names_parent (rc_id r) x" "rep = mk_reply x"
    by auto
  with r show ?thesis by blast
qed

lemma trim_Nil_iff: "trim t = [] \<longleftrightarrow> (\<forall>ch \<in> set t. is_space ch)"
proof -
  have "trim t = [] \<longleftrightarrow> (\<forall>x \<in> set (dropWhile is_space t). is_space x)"
    by (simp add: trim_def dropWhile_eq_Nil_conv)
  also have "\<dots> \<longleftrightarrow> dropWhile is_space t = []"
    using hd_dropWhile [of is_space t]
    by (cases "dropWhile is_space t") (auto dest: set_dropWhileD)
  also have "\<dots> \<longleftrightarrow> (\<forall>ch \<in> set t. is_space ch)"
    by (simp add: dropWhile_eq_Nil_conv)
  finally show ?thesis .
qed

text \<open>
  Claim C1, as the code has it. Sanitizing twice gives the same text as sanitizing once
  whenever the text sanitized once holds no match of the three removal patterns (HTML
  comment, "Additional Locations" block, vendor link paragraph). Each pattern is removed in
  a single pass, so removing an inner marker can leave a new marker behind.
\<close>

theorem cleanBody_idempotent_on_clean_output:
  assumes "cleanBody (Some T) = Some U"
    and "\<not> has_match False rx_html_comment U"
    and "\<not> has_match True rx_details U"
    and "\<not> has_match True rx_cursor U"
  shows "cleanBody (cleanBody (Some T)) = cleanBody (Some T)"
proof -
  from assms(1) obtain y where U: "U = [] \<or> U = trim (collapse y)"
    by (auto simp: cleanBody_Some split: if_splits)
  then have fx: "trim (collapse U) = U"
  proof
    assume "U = []"
    then show ?thesis by (simp add: collapse_Nil trim_def)
  next
    assume u: "U = trim (collapse y)"
    then have "collapse U = U"
      by (simp add: collapse_fix no_triple_trim_collapse)
    then show ?thesis using u by (simp add: trim_idem)
  qed
  have "cleanBody (Some U) = Some U"
    using assms(2-4) fx by (simp add: cleanBody_Some replace_g_no_match)
  then show ?thesis using assms(1) by simp
qed

text \<open>The theorem at a comment that is removed in one pass.\<close>

theorem cleanBody_idempotent_on_clean_output_witness:
  "cleanBody (Some (str ''before <!-- hidden --> after'')) = Some (str ''before  after'')
   \<and> \<not> has_match False rx_html_comment (str ''before  after'')
   \<and> \<not> has_match True rx_details (str ''before  after'')
   \<and> \<not> has_match True rx_cursor (str ''before  after'')
   \<and> cleanBody (cleanBody (Some (str ''before <!-- hidden --> after'')))
       = cleanBody (Some (str ''before <!-- hidden --> after''))"
proof -
  have 1: "cleanBody (Some (str ''before <!-- hidden --> after'')) = Some (str ''before  after'')"
    by code_simp
  have 2: "\<not> has_match False rx_html_comment (str ''before  after'')" by code_simp
  have 3: "\<not> has_match True rx_details (str ''before  after'')" by code_simp
  have 4: "\<not> has_match True rx_cursor (str ''before  after'')" by code_simp
  note 5 = cleanBody_idempotent_on_clean_output [OF 1 2 3 4]
  show ?thesis using 1 2 3 4 5 by blast
qed

text \<open>
  Claim C1 as stated fails when markers overlap: removing the inner comment of
  \<open><!-<!-- a -->- b -->\<close> leaves \<open><!-- b -->\<close>, which a second application removes.
\<close>

theorem cleanBody_not_idempotent:
  "cleanBody (cleanBody (Some (str ''<!-<!-- a -->- b -->''))) \<noteq> cleanBody (Some (str ''<!-<!-- a -->- b -->''))"
  by code_simp

text \<open>
  Claim C9, as the code has it. A text without a match of the three removal patterns is
  returned with every run of three or more newlines collapsed to two and then trimmed; a
  text that has no three newlines in a row either is returned unchanged except for the
  trimming.
\<close>

theorem cleanBody_without_markers:
  assumes "\<not> has_match False rx_html_comment T"
    and "\<not> has_match True rx_details T"
    and "\<not> has_match True rx_cursor T"
  shows "cleanBody (Some T) = Some (trim (collapse T))
         \<and> (\<not> sublist [nl, nl, nl] T \<longrightarrow> cleanBody (Some T) = Some (trim T))"
  using assms
  by (simp add: cleanBody_Some replace_g_no_match collapse_fix collapse_Nil trim_def)

text \<open>The theorem at a text with a blank line and surrounding spaces.\<close>

theorem cleanBody_without_markers_witness:
  "\<not> has_match False rx_html_comment (str '' one'' @ [nl, nl] @ str ''two '')
   \<and> \<not> has_match True rx_details (str '' one'' @ [nl, nl] @ str ''two '')
   \<and> \<not> has_match True rx_cursor (str '' one'' @ [nl, nl] @ str ''two '')
   \<and> \<not> sublist [nl, nl, nl] (str '' one'' @ [nl, nl] @ str ''two '')
   \<and> cleanBody (Some (str '' one'' @ [nl, nl] @ str ''two '')) = Some (str ''one'' @ [nl, nl] @ str ''two'')"
proof -
  let ?T = "str '' one'' @ [nl, nl] @ str ''two ''"
  have 1: "\<not> has_match False rx_html_comment ?T" by code_simp
  have 2: "\<not> has_match True rx_details ?T" by code_simp
  have 3: "\<not> has_match True rx_cursor ?T" by code_simp
  have 4: "\<not> sublist [nl, nl, nl] ?T" by code_simp
  have 5: "trim ?T = str ''one'' @ [nl, nl] @ str ''two''" by code_simp
  from cleanBody_without_markers [OF 1 2 3]
  have "\<not> sublist [nl, nl, nl] ?T \<longrightarrow> cleanBody (Some ?T) = Some (trim ?T)"
    by (rule conjunct2)
  then have "cleanBody (Some ?T) = Some (trim ?T)" using 4 by blast
  then have 6: "cleanBody (Some ?T) = Some (str ''one'' @ [nl, nl] @ str ''two'')"
    by (simp only: 5)
  show ?thesis using 1 2 3 4 6 by blast
qed

text \<open>
  Claim C9 as stated fails on a run of three newlines: no marker is present, and the text
  returned differs from the trimmed input.
\<close>

theorem cleanBody_collapses_newlines:
  "\<not> has_match False rx_html_comment [(cu CHR ''a''), nl, nl, nl, (cu CHR ''b'')]
   \<and> \<not> has_match True rx_details [(cu CHR ''a''), nl, nl, nl, (cu CHR ''b'')]
   \<and> \<not> has_match True rx_cursor [(cu CHR ''a''), nl, nl, nl, (cu CHR ''b'')]
   \<and> cleanBody (Some [(cu CHR ''a''), nl, nl, nl, (cu CHR ''b'')])
        \<noteq> Some (trim [(cu CHR ''a''), nl, nl, nl, (cu CHR ''b'')])"
  by code_simp

text \<open>
  What the sort achieves. When every creation time of the input is a date, the sequence
  returned by \<open>processComments\<close> is sorted by \<open>createdAt\<close>, newest first; and three inline
  thread roots with creation times \<open>t1 < t2 < t3\<close>, in whichever order they are given, come
  out in the order \<open>t3\<close>, \<open>t2\<close>, \<open>t1\<close>.
\<close>

theorem processComments_newest_first:
  "((\<forall>c \<in> set (reviewComments data). g (rc_created_at c) \<noteq> None)
      \<and> (\<forall>c \<in> set (issueComments data). g (ic_created_at c) \<noteq> None)
      \<and> (\<forall>r \<in> set (reviews data). g (rv_submitted_at r) \<noteq> None)
     \<longrightarrow> sorted_wrt (newer_eq g) (processComments g data mf))
   \<and> (is_thread_root (metaFilters_of mf) c1 \<and> is_thread_root (metaFilters_of mf) c2
        \<and> is_thread_root (metaFilters_of mf) c3
        \<and> g (rc_created_at c1) = Some t1 \<and> g (rc_created_at c2) = Some t2
        \<and> g (rc_created_at c3) = Some t3 \<and> t1 < t2 \<and> t2 < t3
        \<and> cs \<in> set [[c1, c2, c3], [c1, c3, c2], [c2, c1, c3], [c2, c3, c1], [c3, c1, c2],
                      [c3, c2, c1]]
     \<longrightarrow> processComments g \<lparr>reviewComments = cs, issueComments = [], reviews = []\<rparr> mf
           = map (mk_review_comment Map.empty) [c3, c2, c1])"
proof (intro conjI impI)
  assume "(\<forall>c \<in> set (reviewComments data). g (rc_created_at c) \<noteq> None)
      \<and> (\<forall>c \<in> set (issueComments data). g (ic_created_at c) \<noteq> None)
      \<and> (\<forall>r \<in> set (reviews data). g (rv_submitted_at r) \<noteq> None)"
  then have "\<forall>e \<in> set (unsorted data mf). g (c_createdAt e) \<noteq> None"
    by (auto simp: unsorted_eq mk_review_comment_fields mk_issue_comment_def mk_review_def)
  then show "sorted_wrt (newer_eq g) (processComments g data mf)"
    unfolding processComments_def by (rule sorted_sort_cmp)
next
  assume h: "is_thread_root (metaFilters_of mf) c1 \<and> is_thread_root (metaFilters_of mf) c2
        \<and> is_thread_root (metaFilters_of mf) c3
        \<and> g (rc_created_at c1) = Some t1 \<and> g (rc_created_at c2) = Some t2
        \<and> g (rc_created_at c3) = Some t3 \<and> t1 < t2 \<and> t2 < t3
        \<and> cs \<in> set [[c1, c2, c3], [c1, c3, c2], [c2, c1, c3], [c2, c3, c1], [c3, c1, c2],
                      [c3, c2, c1]]"
  then have roots: "\<forall>c \<in> set cs. is_thread_root (metaFilters_of mf) c"
    by auto
  have "foldl add_reply m xs = m" if "\<forall>c \<in> set xs. is_thread_root (metaFilters_of mf) c"
    for m xs
    using that by (induction xs arbitrary: m) (simp_all add: add_reply_def is_thread_root_def)
  with roots have m: "build_repliesMap cs = Map.empty"
    by (simp add: build_repliesMap_def)
  have u: "unsorted \<lparr>reviewComments = cs, issueComments = [], reviews = []\<rparr> mf
           = map (mk_review_comment Map.empty) cs"
    using roots by (simp add: unsorted_eq m)
  have "sort_cmp (newest_first g) (map (mk_review_comment Map.empty) cs)
      = map (mk_review_comment Map.empty) [c3, c2, c1]"
    using h
    by (auto simp: sort_cmp_def newest_first_def sorts_before_def mk_review_comment_fields)
  then show "processComments g \<lparr>reviewComments = cs, issueComments = [], reviews = []\<rparr> mf
           = map (mk_review_comment Map.empty) [c3, c2, c1]"
    by (simp add: processComments_def u)
qed

text \<open>
  The theorem at three thread roots of three consecutive days, given with the middle one
  first and the oldest one last.
\<close>

theorem processComments_newest_first_witness:
  "example_time (rc_created_at finding1) = Some 1735689600000
   \<and> example_time (rc_created_at finding2) = Some 1735776000000
   \<and> example_time (rc_created_at finding3) = Some 1735862400000
   \<and> sorted_wrt (newer_eq example_time)
        (processComments example_time
           \<lparr>reviewComments = [finding2, finding3, finding1], issueComments = [], reviews = []\<rparr>
           None)
   \<and> map c_id
        (processComments example_time
           \<lparr>reviewComments = [finding2, finding3, finding1], issueComments = [], reviews = []\<rparr>
           None)
       = [3, 2, 1]"
proof -
  let ?cs = "[finding2, finding3, finding1]"
  let ?data = "\<lparr>reviewComments = ?cs, issueComments = [], reviews = []\<rparr>"
  have v: "\<forall>c \<in> set ?cs. example_time (rc_created_at c) \<noteq> None"
    by code_simp
  have r: "is_thread_root (metaFilters_of None) finding1"
    "is_thread_root (metaFilters_of None) finding2"
    "is_thread_root (metaFilters_of None) finding3"
    by code_simp+
  have t: "example_time (rc_created_at finding1) = Some 1735689600000"
    "example_time (rc_created_at finding2) = Some 1735776000000"
    "example_time (rc_created_at finding3) = Some 1735862400000"
    by code_simp+
  note inst = processComments_newest_first [of ?data example_time None finding1 finding2 finding3
      1735689600000 1735776000000 1735862400000 ?cs]
  have "(\<forall>c \<in> set (reviewComments ?data). example_time (rc_created_at c) \<noteq> None)
      \<and> (\<forall>c \<in> set (issueComments ?data). example_time (ic_created_at c) \<noteq> None)
      \<and> (\<forall>r \<in> set (reviews ?data). example_time (rv_submitted_at r) \<noteq> None)"
    using v by simp
  with inst have s: "sorted_wrt (newer_eq example_time) (processComments example_time ?data None)"
    by blast
  from inst r t have "processComments example_time ?data None
      = map (mk_review_comment Map.empty) [finding3, finding2, finding1]"
    by simp
  then have "map c_id (processComments example_time ?data None) = [3, 2, 1]"
    by (simp add: mk_review_comment_fields example_comment_def finding1_def finding2_def
        finding3_def)
  with t s show ?thesis by blast
qed

text \<open>
  Claim C6. The code means to return the sequence newest first (\<open>Sort by date (newest
  first)\<close>, says its comment), and misses the entity with no date. A pending verdict has
  no \<open>submitted_at\<close>; with a text of its own it is emitted, its \<open>createdAt\<close> is absent and
  every comparison with it yields \<open>NaN\<close>, which the sort reads as equal. For an inline
  comment of 1 January, a pending verdict and a verdict of 3 January, every comparison
  the sort makes has the pending verdict on one side, and the three stay as they were
  pushed: the comment of 1 January comes before the verdict of 3 January, and the
  sequence is not sorted by \<open>createdAt\<close>.
\<close>

theorem processComments_unsorted_without_date:
  "map c_id
     (processComments example_time
        \<lparr>reviewComments = [finding1], issueComments = [],
         reviews = [verdict_pending, verdict_late]\<rparr> None)
     = [1, 9, 10]
   \<and> map (example_time \<circ> c_createdAt)
       (processComments example_time
          \<lparr>reviewComments = [finding1], issueComments = [],
           reviews = [verdict_pending, verdict_late]\<rparr> None)
     = [Some 1735689600000, None, Some 1735862400000]
   \<and> \<not> sorted_wrt (newer_eq example_time)
       (processComments example_time
          \<lparr>reviewComments = [finding1], issueComments = [],
           reviews = [verdict_pending, verdict_late]\<rparr> None)"
proof -
  let ?res = "processComments example_time
      \<lparr>reviewComments = [finding1], issueComments = [],
       reviews = [verdict_pending, verdict_late]\<rparr> None"
  have ids: "map c_id ?res = [1, 9, 10]"
    by code_simp
  have times: "map (example_time \<circ> c_createdAt) ?res
      = [Some 1735689600000, None, Some 1735862400000]"
    by code_simp
  from ids obtain a p b where res: "?res = [a, p, b]"
    by (auto simp: map_eq_Cons_conv)
  with times have "example_time (c_createdAt a) = Some 1735689600000"
    and "example_time (c_createdAt b) = Some 1735862400000"
    by simp_all
  then have "\<not> newer_eq example_time a b"
    by (simp add: newer_eq_def)
  then have "\<not> sorted_wrt (newer_eq example_time) ?res"
    by (simp add: res)
  with ids times show ?thesis
    by blast
qed

text \<open>
  Claim C8. The review verdicts in the output are the verdicts of the input that match no
  meta predicate and whose body is neither missing nor made of whitespace only; such an
  entity is resolved exactly when its state is APPROVED or DISMISSED (the values the API
  uses for the states approved and dismissed); and no entity of another kind is resolved.
\<close>

theorem review_verdicts:
  "mset (filter (\<lambda>e. c_type e = review) (processComments g data mf))
     = mset (map mk_review
         (filter (\<lambda>rv. \<not> isMetaComment (rv_user rv) (rv_body rv) (metaFilters_of mf)
                       \<and> \<not> (case rv_body rv of None \<Rightarrow> True
                             | Some b \<Rightarrow> \<forall>ch \<in> set b. is_space ch))
            (reviews data)))
   \<and> (\<forall>rv. c_type (mk_review rv) = review
          \<and> (c_isResolved (mk_review rv)
               \<longleftrightarrow> rv_state rv = Some (str ''APPROVED'') \<or> rv_state rv = Some (str ''DISMISSED'')))
   \<and> (\<forall>e \<in> set (processComments g data mf). c_type e \<noteq> review \<longrightarrow> \<not> c_isResolved e)"
proof (intro conjI)
  have k: "keeps_review (metaFilters_of mf) = (\<lambda>rv. \<not> isMetaComment (rv_user rv) (rv_body rv) (metaFilters_of mf)
                       \<and> \<not> (case rv_body rv of None \<Rightarrow> True
                             | Some b \<Rightarrow> \<forall>ch \<in> set b. is_space ch))"
    by (auto simp: keeps_review_def trim_Nil_iff fun_eq_iff split: option.splits)
  have "mset (filter (\<lambda>e. c_type e = review) (processComments g data mf))
        = mset (filter (\<lambda>e. c_type e = review) (unsorted data mf))"
    by (simp only: processComments_def mset_filter mset_sort_cmp)
  also have "filter (\<lambda>e. c_type e = review) (unsorted data mf)
        = map mk_review (filter (keeps_review (metaFilters_of mf)) (reviews data))"
    by (simp add: unsorted_eq filter_map comp_def mk_review_comment_fields
        mk_issue_comment_def mk_review_def)
  finally show "mset (filter (\<lambda>e. c_type e = review) (processComments g data mf))
     = mset (map mk_review
         (filter (\<lambda>rv. \<not> isMetaComment (rv_user rv) (rv_body rv) (metaFilters_of mf)
                       \<and> \<not> (case rv_body rv of None \<Rightarrow> True
                             | Some b \<Rightarrow> \<forall>ch \<in> set b. is_space ch))
            (reviews data)))"
    by (simp only: k)
next
  show "\<forall>rv. c_type (mk_review rv) = review
          \<and> (c_isResolved (mk_review rv)
               \<longleftrightarrow> rv_state rv = Some (str ''APPROVED'') \<or> rv_state rv = Some (str ''DISMISSED''))"
    by (simp add: mk_review_def)
next
  show "\<forall>e \<in> set (processComments g data mf). c_type e \<noteq> review \<longrightarrow> \<not> c_isResolved e"
    by (auto simp: set_processComments unsorted_eq mk_review_comment_fields
        mk_issue_comment_def mk_review_def)
qed

text \<open>
  The theorem at one inline comment, one verdict with a text and one with blanks only.
\<close>

theorem review_verdicts_witness:
  "mset (filter (\<lambda>e. c_type e = review)
      (processComments example_time
         \<lparr>reviewComments = [root_a], issueComments = [],
           reviews = [verdict_text, verdict_blank]\<rparr> None))
     = {# mk_review verdict_text #}
   \<and> c_isResolved (mk_review verdict_text)
   \<and> mk_review_comment Map.empty root_a
        \<in> set (processComments example_time
             \<lparr>reviewComments = [root_a], issueComments = [],
               reviews = [verdict_text, verdict_blank]\<rparr> None)
   \<and> \<not> c_isResolved (mk_review_comment Map.empty root_a)"
proof -
  let ?data = "\<lparr>reviewComments = [root_a], issueComments = [],
      reviews = [verdict_text, verdict_blank]\<rparr>"
  let ?keep = "\<lambda>rv. \<not> isMetaComment (rv_user rv) (rv_body rv) (metaFilters_of None)
                       \<and> \<not> (case rv_body rv of None \<Rightarrow> True
                             | Some b \<Rightarrow> \<forall>ch \<in> set b. is_space ch)"
  note inst = review_verdicts [of example_time ?data None]
  have k: "filter ?keep (reviews ?data) = [verdict_text]"
    by code_simp
  have m: "mk_review_comment Map.empty root_a \<in> set (processComments example_time ?data None)"
    by code_simp
  have ty: "c_type (mk_review_comment Map.empty root_a) \<noteq> review"
    by (simp add: mk_review_comment_fields)
  from inst have "mset (filter (\<lambda>e. c_type e = review) (processComments example_time ?data None))
      = mset (map mk_review (filter ?keep (reviews ?data)))"
    by (rule conjunct1)
  then have 1: "mset (filter (\<lambda>e. c_type e = review) (processComments example_time ?data None))
      = {# mk_review verdict_text #}"
    by (simp only: k) simp
  from inst have "c_isResolved (mk_review verdict_text)
      \<longleftrightarrow> rv_state verdict_text = Some (str ''APPROVED'')
          \<or> rv_state verdict_text = Some (str ''DISMISSED'')"
    by blast
  then have 2: "c_isResolved (mk_review verdict_text)"
    by (simp add: example_review_def verdict_text_def)
  from inst m ty have 3: "\<not> c_isResolved (mk_review_comment Map.empty root_a)"
    by blast
  from 1 2 m 3 show ?thesis by blast
qed

text \<open>
  Claim C7. An inline comment that carries a parent id matching no comment of the inline
  set is dropped without a trace: the output is the one computed from the input without
  that comment. So, ids being unique in the inline set, it is no top-level entity and it
  is in no entity's replies.
\<close>

theorem orphan_reply_dropped:
  assumes "names_parent p c"
    and "\<forall>x \<in> set (xs @ c # ys). rc_id x \<noteq> p"
  shows "processComments g \<lparr>reviewComments = xs @ c # ys, issueComments = ics, reviews = rvs\<rparr> mf
          = processComments g \<lparr>reviewComments = xs @ ys, issueComments = ics, reviews = rvs\<rparr> mf
       \<and> (distinct (map rc_id (xs @ c # ys)) \<longrightarrow>
            (\<forall>e \<in> set (processComments g
                         \<lparr>reviewComments = xs @ c # ys, issueComments = ics, reviews = rvs\<rparr> mf).
               (c_type e = review_comment \<longrightarrow> c_id e \<noteq> rc_id c)
               \<and> (\<forall>rep \<in> set (c_replies e). r_id rep \<noteq> rc_id c)))"
proof -
  let ?with = "\<lparr>reviewComments = xs @ c # ys, issueComments = ics, reviews = rvs\<rparr>"
  let ?without = "\<lparr>reviewComments = xs @ ys, issueComments = ics, reviews = rvs\<rparr>"
  from assms(2) have "\<forall>r \<in> set (xs @ ys). is_thread_root (metaFilters_of mf) r \<longrightarrow> rc_id r \<noteq> p"
    by auto
  with assms(1) have "unsorted ?with mf = unsorted ?without mf"
    by (rule reply_without_root_dropped)
  then have eq: "processComments g ?with mf = processComments g ?without mf"
    by (simp add: processComments_def)
  have "(c_type e = review_comment \<longrightarrow> c_id e \<noteq> rc_id c)
        \<and> (\<forall>rep \<in> set (c_replies e). r_id rep \<noteq> rc_id c)"
    if d: "distinct (map rc_id (xs @ c # ys))" and e: "e \<in> set (processComments g ?with mf)" for e
  proof -
    from d have other: "\<forall>x \<in> set (xs @ ys). rc_id x \<noteq> rc_id c"
      by (auto simp: image_iff)
    from e eq have e': "e \<in> set (processComments g ?without mf)" by simp
    have "c_id e \<noteq> rc_id c" if "c_type e = review_comment"
      using review_comment_origin [OF e' that] other
      by (auto simp: mk_review_comment_fields)
    moreover have "r_id rep \<noteq> rc_id c" if "rep \<in> set (c_replies e)" for rep
      using replies_origin [OF e' that] other
      by (auto simp: mk_reply_def)
    ultimately show ?thesis by blast
  qed
  with eq show ?thesis by blast
qed

text \<open>The theorem at a thread root and a reply to a comment that is not there.\<close>

theorem orphan_reply_dropped_witness:
  "names_parent 99 orphan
   \<and> 99 \<notin> rc_id ` set ([root_a] @ orphan # [])
   \<and> processComments example_time
        \<lparr>reviewComments = [root_a] @ orphan # [], issueComments = [], reviews = []\<rparr> None
      = processComments example_time
        \<lparr>reviewComments = [root_a] @ [], issueComments = [], reviews = []\<rparr> None
   \<and> map c_id
        (processComments example_time
           \<lparr>reviewComments = [root_a] @ orphan # [], issueComments = [], reviews = []\<rparr> None)
       = [1]
   \<and> map c_replies
        (processComments example_time
           \<lparr>reviewComments = [root_a] @ orphan # [], issueComments = [], reviews = []\<rparr> None)
       = [[]]"
proof -
  let ?with = "\<lparr>reviewComments = [root_a] @ orphan # [], issueComments = [], reviews = []\<rparr>"
  let ?without = "\<lparr>reviewComments = [root_a] @ [], issueComments = [], reviews = []\<rparr>"
  have 1: "names_parent 99 orphan" by code_simp
  have 2: "\<forall>x \<in> set ([root_a] @ orphan # []). rc_id x \<noteq> 99" by code_simp
  have 3: "99 \<notin> rc_id ` set ([root_a] @ orphan # [])" by code_simp
  from orphan_reply_dropped [OF 1 2, of example_time "[]" "[]" None]
  have eq: "processComments example_time ?with None = processComments example_time ?without None"
    by (rule conjunct1)
  have "map c_id (processComments example_time ?without None) = [1]" by code_simp
  then have 4: "map c_id (processComments example_time ?with None) = [1]"
    by (simp only: eq)
  have "map c_replies (processComments example_time ?without None) = [[]]" by code_simp
  then have 5: "map c_replies (processComments example_time ?with None) = [[]]"
    by (simp only: eq)
  from 1 3 eq 4 5 show ?thesis by blast
qed

text \<open>
  Claim C10, as the code has it. Every reply in the output hangs under an emitted inline
  thread root (a comment without parent id that no meta predicate matches). A reply whose
  parent id belongs only to comments that are replies themselves or that a meta predicate
  suppresses is dropped: the output is the one computed without it, and no top-level
  entity carries the parent's id. (A parent that is itself a reply is not dropped with it:
  it stays among the replies of its own parent.)
\<close>

theorem replies_attached_to_emitted_roots:
  fixes xs ys :: "review_comment_raw list" and c :: review_comment_raw
    and mf :: "meta_filter list option" and g :: "js_string option \<Rightarrow> int option"
    and ics :: "issue_comment_raw list" and rvs :: "review_raw list"
  defines "rcs \<equiv> xs @ c # ys"
  defines "MF \<equiv> metaFilters_of mf"
  defines "res \<equiv> processComments g \<lparr>reviewComments = xs @ c # ys, issueComments = ics, reviews = rvs\<rparr> mf"
  shows "(\<forall>e \<in> set res. \<forall>rep \<in> set (c_replies e).
            \<exists>r \<in> set rcs. \<not> truthy_num (rc_in_reply_to_id r)
              \<and> \<not> isMetaComment (rc_user r) (rc_body r) MF
              \<and> e = mk_review_comment (build_repliesMap rcs) r
              \<and> (\<exists>x \<in> set rcs. names_parent (rc_id r) x \<and> rep = mk_reply x))
       \<and> (names_parent p c \<and> (\<exists>q \<in> set rcs. rc_id q = p)
            \<and> (\<forall>q \<in> set rcs. rc_id q = p \<longrightarrow>
                  truthy_num (rc_in_reply_to_id q) \<or> isMetaComment (rc_user q) (rc_body q) MF)
          \<longrightarrow> res = processComments g
                      \<lparr>reviewComments = xs @ ys, issueComments = ics, reviews = rvs\<rparr> mf
              \<and> (\<forall>e \<in> set res. c_type e = review_comment \<longrightarrow> c_id e \<noteq> p))"
proof (intro conjI impI ballI)
  fix e rep
  assume "e \<in> set res" and "rep \<in> set (c_replies e)"
  then show "\<exists>r \<in> set rcs. \<not> truthy_num (rc_in_reply_to_id r)
              \<and> \<not> isMetaComment (rc_user r) (rc_body r) MF
              \<and> e = mk_review_comment (build_repliesMap rcs) r
              \<and> (\<exists>x \<in> set rcs. names_parent (rc_id r) x \<and> rep = mk_reply x)"
    unfolding res_def rcs_def MF_def
    using replies_origin [of e g "\<lparr>reviewComments = xs @ c # ys, issueComments = ics, reviews = rvs\<rparr>" mf rep]
    by (simp add: is_thread_root_def)
next
  assume h: "names_parent p c \<and> (\<exists>q \<in> set rcs. rc_id q = p)
            \<and> (\<forall>q \<in> set rcs. rc_id q = p \<longrightarrow>
                  truthy_num (rc_in_reply_to_id q) \<or> isMetaComment (rc_user q) (rc_body q) MF)"
  then have noroot: "\<forall>r \<in> set rcs. is_thread_root MF r \<longrightarrow> rc_id r \<noteq> p"
    by (auto simp: is_thread_root_def)
  then have "\<forall>r \<in> set (xs @ ys). is_thread_root (metaFilters_of mf) r \<longrightarrow> rc_id r \<noteq> p"
    by (auto simp: rcs_def MF_def)
  with h have "unsorted \<lparr>reviewComments = xs @ c # ys, issueComments = ics, reviews = rvs\<rparr> mf
             = unsorted \<lparr>reviewComments = xs @ ys, issueComments = ics, reviews = rvs\<rparr> mf"
    by (intro reply_without_root_dropped) auto
  then show "res = processComments g
                      \<lparr>reviewComments = xs @ ys, issueComments = ics, reviews = rvs\<rparr> mf"
    by (simp add: res_def processComments_def)
  fix e
  assume "e \<in> set res" and "c_type e = review_comment"
  then show "c_id e \<noteq> p"
    using noroot unfolding res_def rcs_def MF_def
    by (auto dest!: review_comment_origin simp: mk_review_comment_fields)
qed

text \<open>The theorem at a thread root, a reply to it and a reply to that reply.\<close>

theorem replies_attached_to_emitted_roots_witness:
  "names_parent 2 reply_c
   \<and> rc_id reply_b = 2
   \<and> truthy_num (rc_in_reply_to_id reply_b)
   \<and> processComments example_time
        \<lparr>reviewComments = [root_a, reply_b] @ reply_c # [], issueComments = [], reviews = []\<rparr>
        None
      = processComments example_time
        \<lparr>reviewComments = [root_a, reply_b] @ [], issueComments = [], reviews = []\<rparr> None
   \<and> map c_id
        (processComments example_time
           \<lparr>reviewComments = [root_a, reply_b] @ reply_c # [], issueComments = [],
             reviews = []\<rparr> None)
       = [1]"
proof -
  let ?with = "\<lparr>reviewComments = [root_a, reply_b] @ reply_c # [], issueComments = [],
      reviews = []\<rparr>"
  let ?without = "\<lparr>reviewComments = [root_a, reply_b] @ [], issueComments = [], reviews = []\<rparr>"
  have 1: "names_parent 2 reply_c" by code_simp
  have 2: "\<exists>q \<in> set ([root_a, reply_b] @ reply_c # []). rc_id q = 2" by code_simp
  have 3: "\<forall>q \<in> set ([root_a, reply_b] @ reply_c # []). rc_id q = 2 \<longrightarrow>
      truthy_num (rc_in_reply_to_id q)
      \<or> isMetaComment (rc_user q) (rc_body q) (metaFilters_of None)"
    by code_simp
  have 4: "rc_id reply_b = 2" "truthy_num (rc_in_reply_to_id reply_b)" by code_simp+
  note inst = replies_attached_to_emitted_roots
    [of example_time "[root_a, reply_b]" reply_c "[]" "[]" "[]" None 2]
  from inst 1 2 3 have 5: "processComments example_time ?with None
      = processComments example_time ?without None"
    by blast
  have "map c_id (processComments example_time ?without None) = [1]"
    by code_simp
  then have 6: "map c_id (processComments example_time ?with None) = [1]"
    by (simp only: 5)
  from 1 4 5 6 show ?thesis by blast
qed

text \<open>
  Claim C10 as stated fails for the parent in a chain of replies: the reply to a reply is
  dropped, but its parent, being a reply to an emitted thread root, is in the output.
\<close>

theorem reply_parent_still_attached:
  "names_parent 2 reply_c
   \<and> rc_id reply_b = 2
   \<and> truthy_num (rc_in_reply_to_id reply_b)
   \<and> map c_replies
        (processComments example_time
           \<lparr>reviewComments = [root_a, reply_b, reply_c], issueComments = [], reviews = []\<rparr> None)
       = [[mk_reply reply_b]]"
  by code_simp

section \<open>Properties of the filter\<close>

text \<open>
  Claim C3, as the code has it. \<open>filterComments\<close> changes no array that exists when it is
  called, its input among them, and returns a reference to the filtered sequence. When an
  actor-class option or a recognized state filter is set, the array returned is newly
  allocated; when none is set, the reference returned is the input reference itself and
  nothing is allocated.
\<close>

theorem filterComments_ref_frame:
  assumes "comments < length h"
  shows "take (length h) (fst (filterComments_ref h comments opts)) = h
       \<and> snd (filterComments_ref h comments opts) < length (fst (filterComments_ref h comments opts))
       \<and> fst (filterComments_ref h comments opts) ! snd (filterComments_ref h comments opts)
           = filterComments (h ! comments) opts
       \<and> (if botsOnly opts \<or> humansOnly opts \<or> filter_opt opts = Some (str ''unresolved'')
              \<or> filter_opt opts = Some (str ''unanswered'')
           then length h \<le> snd (filterComments_ref h comments opts)
           else filterComments_ref h comments opts = (h, comments))"
  using assms
  by (auto simp: filterComments_ref_def filterComments_def array_filter_def Let_def nth_append)

text \<open>The theorem at a store with one array, filtered to the automated comments.\<close>

theorem filterComments_ref_frame_witness:
  "(0::nat) < length [[bot_comment, human_comment]]
   \<and> take (length [[bot_comment, human_comment]])
         (fst (filterComments_ref [[bot_comment, human_comment]] 0
                (plain_options\<lparr>botsOnly := True\<rparr>)))
       = [[bot_comment, human_comment]]
   \<and> fst (filterComments_ref [[bot_comment, human_comment]] 0 (plain_options\<lparr>botsOnly := True\<rparr>))
       ! snd (filterComments_ref [[bot_comment, human_comment]] 0 (plain_options\<lparr>botsOnly := True\<rparr>))
       = [bot_comment]
   \<and> length [[bot_comment, human_comment]]
       \<le> snd (filterComments_ref [[bot_comment, human_comment]] 0 (plain_options\<lparr>botsOnly := True\<rparr>))"
proof -
  let ?h = "[[bot_comment, human_comment]]"
  let ?o = "plain_options\<lparr>botsOnly := True\<rparr>"
  have 1: "(0::nat) < length ?h" by simp
  have 2: "filterComments (?h ! 0) ?o = [bot_comment]" by code_simp
  have 3: "botsOnly ?o" by simp
  note inst = filterComments_ref_frame [OF 1, of ?o]
  from inst have a: "take (length ?h) (fst (filterComments_ref ?h 0 ?o)) = ?h" by blast
  from inst have "fst (filterComments_ref ?h 0 ?o) ! snd (filterComments_ref ?h 0 ?o)
      = filterComments (?h ! 0) ?o" by blast
  then have b: "fst (filterComments_ref ?h 0 ?o) ! snd (filterComments_ref ?h 0 ?o) = [bot_comment]"
    by (simp only: 2)
  from inst 3 have c: "length ?h \<le> snd (filterComments_ref ?h 0 ?o)"
    by (simp only: if_True simp_thms)
  from 1 a b c show ?thesis by blast
qed

text \<open>
  Claim C3 as stated fails when no option is set: the collection returned is the input
  collection (the same reference), not a new one.
\<close>

theorem filterComments_returns_its_input:
  "filterComments_ref [[bot_comment, human_comment]] 0 plain_options
     = ([[bot_comment, human_comment]], 0)"
  by code_simp

section \<open>Properties of the paginated fetch\<close>

lemma requested_truthy: "requested proxyFetch url k = Some u \<Longrightarrow> truthy_str (Some u)"
  by (cases k) (auto simp: truthy_str_def Let_def split: if_splits option.splits)

lemma fetch_loop_reaches:
  "requested proxyFetch url k = Some u \<Longrightarrow>
     \<exists>acc. fetch_loop proxyFetch 0 [] (Some url) = fetch_loop proxyFetch k acc (Some u)"
proof (induction k arbitrary: u)
  case 0
  then show ?case by (auto split: if_splits)
next
  case (Suc k)
  from Suc.prems obtain v where v: "requested proxyFetch url k = Some v"
    and ok: "p_ok (proxyFetch k v)" and l: "truthy_str (p_link (proxyFetch k v))"
    and u: "next_link (the (p_link (proxyFetch k v))) = Some u"
    by (auto simp: Let_def split: option.splits if_splits)
  from Suc.IH [OF v] obtain acc where
    "fetch_loop proxyFetch 0 [] (Some url) = fetch_loop proxyFetch k acc (Some v)" ..
  also have "\<dots> = fetch_loop proxyFetch (Suc k) (acc @ p_data (proxyFetch k v)) (Some u)"
    using requested_truthy [OF v] ok l u
    by (subst fetch_loop.simps) (simp add: Let_def)
  finally show ?case by blast
qed

text \<open>
  Claim C4, as the code has it. When the run reaches a page whose response is not a
  success, \<open>fetchAllPages\<close> ends with an error whose message holds the status of that
  response and nothing else; the pages fetched before are not returned.
\<close>

theorem fetchAllPages_failure:
  assumes "requested proxyFetch url k = Some u" and "\<not> p_ok (proxyFetch k u)"
  shows "fetchAllPages proxyFetch url
         = Some (Inl (Error (str ''API request failed: '' @ decimal (p_status (proxyFetch k u)))))"
proof -
  from fetch_loop_reaches [OF assms(1)] obtain acc where
    "fetch_loop proxyFetch 0 [] (Some url) = fetch_loop proxyFetch k acc (Some u)" ..
  also have "\<dots> = Some (Inl (Error (str ''API request failed: '' @ decimal (p_status (proxyFetch k u)))))"
    using requested_truthy [OF assms(1)] assms(2)
    by (subst fetch_loop.simps) (simp add: Let_def)
  finally show ?thesis by (simp add: fetchAllPages_def)
qed

text \<open>The theorem at a server whose second page fails after a first page with two items.\<close>

theorem fetchAllPages_failure_witness:
  "requested second_page_fails (str ''https://api.github.com/page1'') 1 = Some (str ''https://api.github.com/page2'')
   \<and> \<not> p_ok (second_page_fails 1 (str ''https://api.github.com/page2''))
   \<and> p_data (second_page_fails 0 (str ''https://api.github.com/page1'')) = [1, 2]
   \<and> fetchAllPages second_page_fails (str ''https://api.github.com/page1'')
       = Some (Inl (Error (str ''API request failed: 502'')))"
proof -
  have 1: "requested second_page_fails (str ''https://api.github.com/page1'') 1
      = Some (str ''https://api.github.com/page2'')"
    by code_simp
  have 2: "\<not> p_ok (second_page_fails 1 (str ''https://api.github.com/page2''))" by code_simp
  have 3: "p_data (second_page_fails 0 (str ''https://api.github.com/page1'')) = [1, 2]" by code_simp
  have 4: "str ''API request failed: '' @ decimal (p_status (second_page_fails 1 (str ''https://api.github.com/page2'')))
      = str ''API request failed: 502''"
    by code_simp
  from fetchAllPages_failure [OF 1 2]
  have 5: "fetchAllPages second_page_fails (str ''https://api.github.com/page1'')
       = Some (Inl (Error (str ''API request failed: 502'')))"
    by (simp only: 4)
  from 1 2 3 5 show ?thesis by blast
qed

text \<open>
  Claim C4 as stated fails in what the failure carries: requests to two different URLs
  that are answered with the same status fail with the same error, so the error holds no
  URL.
\<close>

theorem fetchAllPages_error_without_url:
  "fetchAllPages failing_server (str ''https://api.github.com/repos/org/repo/pulls/1/comments?per_page=100'')
     = Some (Inl (Error (str ''API request failed: 500'')))
   \<and> fetchAllPages failing_server (str ''https://api.github.com/repos/org/repo/issues/1/comments?per_page=100'')
     = Some (Inl (Error (str ''API request failed: 500'')))"
  by code_simp

section \<open>Properties of the reply\<close>

text \<open>
  Claim C5, as the code has it. \<open>replyToComment\<close> first posts the message to the replies
  endpoint of the inline comment and, when that succeeds, returns the created entity
  (whose \<open>html_url\<close> is the permalink) without a second request. On any other status it
  posts a general comment whose body starts with a reference to the original comment id
  and returns the entity created by that. When the second request fails too, it throws an
  error made of the status and the response text of the second request only.
\<close>

theorem replyToComment_fallback:
  fixes owner repo commentId message :: js_string and prNumber :: nat
    and post :: "nat \<Rightarrow> request \<Rightarrow> post_response"
  defines "q1 \<equiv> \<lparr> q_url = str ''https://api.github.com/repos/'' @ owner @ str ''/'' @ repo @ str ''/pulls/''
                     @ decimal prNumber @ str ''/comments/'' @ commentId @ str ''/replies'',
                   q_body = message \<rparr>"
  defines "q2 \<equiv> \<lparr> q_url = str ''https://api.github.com/repos/'' @ owner @ str ''/'' @ repo
                     @ str ''/issues/'' @ decimal prNumber @ str ''/comments'',
                   q_body = str ''> Re: comment '' @ commentId @ [nl, nl] @ message \<rparr>"
  shows "(a_ok (post 0 q1) \<longrightarrow>
            replyToComment owner repo prNumber commentId message post
              = ([q1], Inr (a_json (post 0 q1))))
       \<and> (\<not> a_ok (post 0 q1) \<and> a_ok (post 1 q2) \<longrightarrow>
            replyToComment owner repo prNumber commentId message post
              = ([q1, q2], Inr (a_json (post 1 q2))))
       \<and> (\<not> a_ok (post 0 q1) \<and> \<not> a_ok (post 1 q2) \<longrightarrow>
            replyToComment owner repo prNumber commentId message post
              = ([q1, q2],
                 Inl (Error (str ''Failed to reply: '' @ decimal (a_status (post 1 q2))
                              @ str '' - '' @ a_text (post 1 q2)))))"
  by (simp add: replyToComment_def q1_def q2_def Let_def)

text \<open>
  The theorem at three servers: one accepts the inline reply, one refuses it and accepts
  the general comment, one refuses both.
\<close>

theorem replyToComment_fallback_witness:
  "a_ok (example_post 201 False 0 inline_request)
   \<and> replyToComment (str ''org'') (str ''repo'') 1 (str ''42'') (str ''Done'')
         (example_post 201 False)
       = ([inline_request],
          Inr \<lparr>cr_id = 76,
                cr_html_url = str ''https://github.com/org/repo/pull/1#discussion_r76''\<rparr>)
   \<and> \<not> a_ok (example_post 404 False 0 inline_request)
   \<and> replyToComment (str ''org'') (str ''repo'') 1 (str ''42'') (str ''Done'')
         (example_post 404 False)
       = ([inline_request, general_request],
          Inr \<lparr>cr_id = 77,
                cr_html_url = str ''https://github.com/org/repo/pull/1#issuecomment-77''\<rparr>)
   \<and> replyToComment (str ''org'') (str ''repo'') 1 (str ''42'') (str ''Done'')
         (example_post 404 True)
       = ([inline_request, general_request],
          Inl (Error (str ''Failed to reply: 422 - Validation Failed'')))"
proof -
  let ?q1 = "\<lparr>q_url = str ''https://api.github.com/repos/'' @ str ''org'' @ str ''/''
                 @ str ''repo'' @ str ''/pulls/'' @ decimal 1 @ str ''/comments/'' @ str ''42''
                 @ str ''/replies'',
              q_body = str ''Done''\<rparr>"
  let ?q2 = "\<lparr>q_url = str ''https://api.github.com/repos/'' @ str ''org'' @ str ''/''
                 @ str ''repo'' @ str ''/issues/'' @ decimal 1 @ str ''/comments'',
              q_body = str ''> Re: comment '' @ str ''42'' @ [nl, nl] @ str ''Done''\<rparr>"
  have q1: "?q1 = inline_request" by code_simp
  have q2: "?q2 = general_request" by code_simp
  have a: "a_ok (example_post 201 False 0 inline_request)" by code_simp
  have b: "\<not> a_ok (example_post 404 False 0 inline_request)"
    "a_ok (example_post 404 False 1 general_request)"
    by code_simp+
  have c: "\<not> a_ok (example_post 404 True 0 inline_request)"
    "\<not> a_ok (example_post 404 True 1 general_request)"
    by code_simp+
  have j1: "a_json (example_post 201 False 0 inline_request)
      = \<lparr>cr_id = 76, cr_html_url = str ''https://github.com/org/repo/pull/1#discussion_r76''\<rparr>"
    by code_simp
  have j2: "a_json (example_post 404 False 1 general_request)
      = \<lparr>cr_id = 77, cr_html_url = str ''https://github.com/org/repo/pull/1#issuecomment-77''\<rparr>"
    by code_simp
  have e: "str ''Failed to reply: '' @ decimal (a_status (example_post 404 True 1 general_request))
             @ str '' - '' @ a_text (example_post 404 True 1 general_request)
           = str ''Failed to reply: 422 - Validation Failed''"
    by code_simp
  from replyToComment_fallback
    [of "example_post 201 False" "str ''org''" "str ''repo''" 1 "str ''42''" "str ''Done''",
      unfolded q1 q2] a
  have 1: "replyToComment (str ''org'') (str ''repo'') 1 (str ''42'') (str ''Done'')
        (example_post 201 False)
      = ([inline_request], Inr (a_json (example_post 201 False 0 inline_request)))"
    by blast
  from replyToComment_fallback
    [of "example_post 404 False" "str ''org''" "str ''repo''" 1 "str ''42''" "str ''Done''",
      unfolded q1 q2] b
  have 2: "replyToComment (str ''org'') (str ''repo'') 1 (str ''42'') (str ''Done'')
        (example_post 404 False)
      = ([inline_request, general_request],
         Inr (a_json (example_post 404 False 1 general_request)))"
    by blast
  from replyToComment_fallback
    [of "example_post 404 True" "str ''org''" "str ''repo''" 1 "str ''42''" "str ''Done''",
      unfolded q1 q2] c
  have 3: "replyToComment (str ''org'') (str ''repo'') 1 (str ''42'') (str ''Done'')
        (example_post 404 True)
      = ([inline_request, general_request],
         Inl (Error (str ''Failed to reply: ''
                @ decimal (a_status (example_post 404 True 1 general_request))
                @ str '' - '' @ a_text (example_post 404 True 1 general_request))))"
    by blast
  from a b(1) 1 2 3 show ?thesis
    unfolding j1 j2 e by blast
qed

text \<open>
  Claim C5 as stated fails in what the final error surfaces: whether the inline endpoint
  answered 404 or 500, the error thrown after both requests failed is the same, so the
  first status is not in it.
\<close>

theorem replyToComment_first_status_lost:
  "a_status (example_post 404 True 0 inline_request) = 404
   \<and> a_status (example_post 500 True 0 inline_request) = 500
   \<and> replyToComment (str ''org'') (str ''repo'') 1 (str ''42'') (str ''Done'')
         (example_post 404 True)
       = ([inline_request, general_request],
          Inl (Error (str ''Failed to reply: 422 - Validation Failed'')))
   \<and> replyToComment (str ''org'') (str ''repo'') 1 (str ''42'') (str ''Done'')
         (example_post 500 True)
       = ([inline_request, general_request],
          Inl (Error (str ''Failed to reply: 422 - Validation Failed'')))"
  by code_simp

section \<open>Properties of the watch loop\<close>

text \<open>
  Claim C2. When a poll finds a filtered comment whose id has not been seen, the loop
  sleeps 5 seconds, fetches exactly once more, appends the comments of that second pass
  that are still unseen to the ones found first, marks the ids of both groups as seen,
  reports the whole list and returns: two fetches in that iteration and no further poll.
  (When the fetch of the grace period throws, the error ends the run at that point.)
\<close>

theorem watch_detection:
  fixes w :: world and opts :: options and st :: wstate
    and filtered graceFiltered :: "comment list"
  defines "newComments \<equiv> filter (\<lambda>c. c_id c \<notin> seenIds st) filtered"
  defines "lateComments \<equiv>
             filter (\<lambda>c. c_id c \<notin> seenIds st \<union> c_id ` set newComments) graceFiltered"
  assumes "fetch_pass w opts (calls st) = Inr filtered"
    and "\<exists>c \<in> set filtered. c_id c \<notin> seenIds st"
  shows "(fetch_pass w opts (calls st + 1) = Inr graceFiltered \<longrightarrow>
           watch_loop w opts lastActivityTime st =
             Some (Reported (newComments @ lateComments),
                   st\<lparr> seenIds :=
                         seenIds st \<union> c_id ` set newComments \<union> c_id ` set lateComments,
                       pollCount := pollCount st + 1,
                       calls := calls st + 2,
                       out := out st
                         @ [Sleep (watchInterval opts), Fetch, Detected (length newComments),
                            Sleep 5, Fetch]
                         @ (if lateComments \<noteq> [] then [Caught (length lateComments)] else [])
                         @ [Report (newComments @ lateComments)] \<rparr>))
       \<and> (fetch_pass w opts (calls st + 1) = Inl e \<longrightarrow>
           watch_loop w opts lastActivityTime st =
             Some (Aborted e,
                   st\<lparr> seenIds := seenIds st \<union> c_id ` set newComments,
                       pollCount := pollCount st + 1,
                       calls := calls st + 2,
                       out := out st
                         @ [Sleep (watchInterval opts), Fetch, Detected (length newComments),
                            Sleep 5, Fetch] \<rparr>))"
proof -
  from assms(4) have new: "filter (\<lambda>c. c_id c \<notin> seenIds st) filtered \<noteq> []"
    by (auto simp: filter_empty_conv)
  have ok: "watch_iteration w opts lastActivityTime st =
      Inl (Reported (newComments @ lateComments),
           st\<lparr> seenIds := seenIds st \<union> c_id ` set newComments \<union> c_id ` set lateComments,
               pollCount := pollCount st + 1,
               calls := calls st + 2,
               out := out st
                 @ [Sleep (watchInterval opts), Fetch, Detected (length newComments),
                    Sleep 5, Fetch]
                 @ (if lateComments \<noteq> [] then [Caught (length lateComments)] else [])
                 @ [Report (newComments @ lateComments)] \<rparr>)"
    if "fetch_pass w opts (calls st + 1) = Inr graceFiltered"
    using that assms(3) new
    unfolding newComments_def lateComments_def
    by (cases "filter (\<lambda>c. c_id c \<notin> seenIds st
                  \<union> c_id ` set (filter (\<lambda>c. c_id c \<notin> seenIds st) filtered)) graceFiltered = []")
      (simp_all add: watch_iteration_def Let_def del: set_filter)
  have bad: "watch_iteration w opts lastActivityTime st =
      Inl (Aborted e,
           st\<lparr> seenIds := seenIds st \<union> c_id ` set newComments,
               pollCount := pollCount st + 1,
               calls := calls st + 2,
               out := out st
                 @ [Sleep (watchInterval opts), Fetch, Detected (length newComments),
                    Sleep 5, Fetch] \<rparr>)"
    if "fetch_pass w opts (calls st + 1) = Inl e"
    using that assms(3) new
    unfolding newComments_def
    by (simp add: watch_iteration_def Let_def)
  show ?thesis
    using ok bad by (simp add: watch_loop.simps)
qed

text \<open>
  The theorem in a world where one comment is new at the first poll and a second one
  lands during the grace period, and in the same world with a failing grace fetch.
\<close>

theorem watch_detection_witness:
  "watchForComments (example_world False) plain_options
     = watch_loop (example_world False) plain_options 0 primed
   \<and> fetch_pass (example_world False) plain_options (calls primed) = Inr [entity1]
   \<and> fetch_pass (example_world False) plain_options (calls primed + 1) = Inr [entity2, entity1]
   \<and> watch_loop (example_world False) plain_options 0 primed
     = Some (Reported [entity1, entity2],
             \<lparr> seenIds = {1, 2}, pollCount = 1, calls = 3, reads = 1,
               out = [Fetch, Tracked 0, Sleep 30, Fetch, Detected 1, Sleep 5, Fetch, Caught 1,
                      Report [entity1, entity2]] \<rparr>)
   \<and> fetch_pass (example_world True) plain_options (calls primed + 1)
     = Inl (Error (str ''API request failed: 502''))
   \<and> watch_loop (example_world True) plain_options 0 primed
     = Some (Aborted (Error (str ''API request failed: 502'')),
             \<lparr> seenIds = {1}, pollCount = 1, calls = 3, reads = 1,
               out = [Fetch, Tracked 0, Sleep 30, Fetch, Detected 1, Sleep 5, Fetch] \<rparr>)"
proof -
  let ?new = "filter (\<lambda>c. c_id c \<notin> seenIds primed) [entity1]"
  let ?late = "filter (\<lambda>c. c_id c \<notin> seenIds primed \<union> c_id ` set ?new) [entity2, entity1]"
  have p0: "fetch_pass (example_world False) plain_options 0 = Inr []"
    by code_simp
  have n0: "now (example_world False) 0 = 0"
    by (simp add: example_world_def)
  have w: "watchForComments (example_world False) plain_options
      = watch_loop (example_world False) plain_options 0 primed"
    by (simp add: watchForComments_def Let_def p0 n0 primed_def)
  have p1: "fetch_pass (example_world False) plain_options (calls primed) = Inr [entity1]"
    by code_simp
  have p2: "fetch_pass (example_world True) plain_options (calls primed) = Inr [entity1]"
    by code_simp
  have d: "\<exists>c \<in> set [entity1]. c_id c \<notin> seenIds primed"
    by code_simp
  have g1: "fetch_pass (example_world False) plain_options (calls primed + 1)
      = Inr [entity2, entity1]"
    by code_simp
  have g2: "fetch_pass (example_world True) plain_options (calls primed + 1)
      = Inl (Error (str ''API request failed: 502''))"
    by code_simp
  have v1: "(Reported (?new @ ?late),
             primed\<lparr> seenIds := seenIds primed \<union> c_id ` set ?new \<union> c_id ` set ?late,
                 pollCount := pollCount primed + 1,
                 calls := calls primed + 2,
                 out := out primed
                   @ [Sleep (watchInterval plain_options), Fetch, Detected (length ?new),
                      Sleep 5, Fetch]
                   @ (if ?late \<noteq> [] then [Caught (length ?late)] else [])
                   @ [Report (?new @ ?late)] \<rparr>)
      = (Reported [entity1, entity2],
         \<lparr> seenIds = {1, 2}, pollCount = 1, calls = 3, reads = 1,
           out = [Fetch, Tracked 0, Sleep 30, Fetch, Detected 1, Sleep 5, Fetch, Caught 1,
                  Report [entity1, entity2]] \<rparr>)"
    by code_simp
  have v2: "(Aborted (Error (str ''API request failed: 502'')),
             primed\<lparr> seenIds := seenIds primed \<union> c_id ` set ?new,
                 pollCount := pollCount primed + 1,
                 calls := calls primed + 2,
                 out := out primed
                   @ [Sleep (watchInterval plain_options), Fetch, Detected (length ?new),
                      Sleep 5, Fetch] \<rparr>)
      = (Aborted (Error (str ''API request failed: 502'')),
         \<lparr> seenIds = {1}, pollCount = 1, calls = 3, reads = 1,
           out = [Fetch, Tracked 0, Sleep 30, Fetch, Detected 1, Sleep 5, Fetch] \<rparr>)"
    by code_simp
  from watch_detection [OF p1 d, of "[entity2, entity1]" 0] g1
  have "watch_loop (example_world False) plain_options 0 primed
      = Some (Reported (?new @ ?late),
             primed\<lparr> seenIds := seenIds primed \<union> c_id ` set ?new \<union> c_id ` set ?late,
                 pollCount := pollCount primed + 1,
                 calls := calls primed + 2,
                 out := out primed
                   @ [Sleep (watchInterval plain_options), Fetch, Detected (length ?new),
                      Sleep 5, Fetch]
                   @ (if ?late \<noteq> [] then [Caught (length ?late)] else [])
                   @ [Report (?new @ ?late)] \<rparr>)"
    by blast
  then have r1: "watch_loop (example_world False) plain_options 0 primed
      = Some (Reported [entity1, entity2],
         \<lparr> seenIds = {1, 2}, pollCount = 1, calls = 3, reads = 1,
           out = [Fetch, Tracked 0, Sleep 30, Fetch, Detected 1, Sleep 5, Fetch, Caught 1,
                  Report [entity1, entity2]] \<rparr>)"
    by (simp only: v1)
  from watch_detection [OF p2 d, of _ 0 "Error (str ''API request failed: 502'')"] g2
  have "watch_loop (example_world True) plain_options 0 primed
      = Some (Aborted (Error (str ''API request failed: 502'')),
             primed\<lparr> seenIds := seenIds primed \<union> c_id ` set ?new,
                 pollCount := pollCount primed + 1,
                 calls := calls primed + 2,
                 out := out primed
                   @ [Sleep (watchInterval plain_options), Fetch, Detected (length ?new),
                      Sleep 5, Fetch] \<rparr>)"
    by blast
  then have r2: "watch_loop (example_world True) plain_options 0 primed
      = Some (Aborted (Error (str ''API request failed: 502'')),
         \<lparr> seenIds = {1}, pollCount = 1, calls = 3, reads = 1,
           out = [Fetch, Tracked 0, Sleep 30, Fetch, Detected 1, Sleep 5, Fetch] \<rparr>)"
    by (simp only: v2)
  from w p1 g1 r1 g2 r2 show ?thesis by blast
qed

end
